theory Spec2Isabelle
  imports Main "HOL-Library.Sublist"
begin

section \<open>The Docling Serve component: data\<close>

text \<open>
  The development follows \<^verbatim>\<open>DoclingRemoteComponent.process_files\<close> of
  \<^verbatim>\<open>docling_remote.py\<close> and its nested routine \<^verbatim>\<open>_convert_document\<close>.

  A parsed JSON body is a value of \<open>json\<close>; a Python dict is an association list read
  with \<open>map_of\<close>.
\<close>

datatype json =
    JNull
  | JBool bool
  | JNum int
  | JStr string
  | JArr "json list"
  | JObj "(string \<times> json) list"

text \<open>
  The exceptions that can leave \<^verbatim>\<open>_convert_document\<close>: \<open>OSError\<close> from
  \<^verbatim>\<open>read_bytes\<close>, \<open>RequestError\<close> from the transport, \<open>HTTPStatusError\<close> from
  \<^verbatim>\<open>raise_for_status\<close>, \<open>ValueError\<close> from \<^verbatim>\<open>response.json()\<close> (a
  \<^verbatim>\<open>JSONDecodeError\<close>) and from the executor's constructor, \<open>KeyError\<close> and
  \<open>TypeError\<close> from subscripting a body.
\<close>

datatype error =
    OSError
  | RequestError
  | HTTPStatusError int
  | ValueError
  | KeyError string
  | TypeError

text \<open>
  What the transport gives back for one request: no response at all (the client raises
  \<open>RequestError\<close>), or a response with its status code and its body, \<open>None\<close> when the
  body does not parse as JSON.
\<close>

datatype reply = NoReply | Reply (reply_status: int) (reply_body: "json option")

text \<open>
  The requests of the three endpoints. \<open>PostConvert options path bytes\<close> stands for the
  POST to \<^verbatim>\<open>/convert/source/async\<close> whose payload holds the options and the one file
  source (the base64 text of \<open>bytes\<close> under the name of \<open>path\<close>); \<open>GetPoll\<close> and
  \<open>GetResult\<close> carry the value of \<^verbatim>\<open>task['task_id']\<close> that is formatted into the
  URL.
\<close>

datatype request =
    PostConvert json string string
  | GetPoll json
  | GetResult json

datatype logmsg =
    TooManyFailures int
  | NoJsonDocument
  | ValidationFailed
  | ErrorOccurred

datatype event = Request request | Sleep | Log logmsg

text \<open>
  How a call ends: it raises, it returns, or (\<open>Stall\<close>) it is still waiting when the
  replies that the environment provides are used up.
\<close>

datatype 'a run = Raise error | Return 'a | Stall

record 'd Data =
  doc :: 'd
  file_path :: string

record BaseFile =
  path :: "string option"

record component =
  max_concurrency :: int
  docling_serve_opts :: "(string \<times> json) list"

text \<open>
  Everything the environment does for one pipeline: the bytes of the file (\<open>None\<close> when
  it cannot be read), the reply to the submission, the replies to the successive polls, and
  the reply to the result fetch. A pipeline is deterministic, so the sequence of replies it
  receives fixes its run.
\<close>

record script =
  file_bytes :: "string option"
  submit_reply :: reply
  poll_replies :: "reply list"
  result_reply :: reply

section \<open>The conversion routine\<close>

definition MAX_500_RETRIES :: nat where
  "MAX_500_RETRIES = 5"

definition retry_status_code :: int where
  "retry_status_code = 500"

text \<open>Python's \<^verbatim>\<open>obj[key]\<close> with a string key on a parsed JSON value.\<close>

fun getitem :: "json \<Rightarrow> string \<Rightarrow> error + json" where
  "getitem (JObj kvs) k = (case map_of kvs k of None \<Rightarrow> Inl (KeyError k) | Some v \<Rightarrow> Inr v)"
| "getitem _ k = Inl TypeError"

text \<open>
  Python's \<^verbatim>\<open>key in obj\<close> with a string key: key membership for a dict, element
  membership for a list, substring test for a string, \<open>TypeError\<close> otherwise.
\<close>

fun contains :: "string \<Rightarrow> json \<Rightarrow> error + bool" where
  "contains k (JObj kvs) = Inr (map_of kvs k \<noteq> None)"
| "contains k (JArr xs) = Inr (JStr k \<in> set xs)"
| "contains k (JStr s) = Inr (sublist k s)"
| "contains k _ = Inl TypeError"

text \<open>
  Modelled from the spec: \<^verbatim>\<open>httpx.Response.raise_for_status\<close> belongs to the HTTP
  client library; section 4.1 of the specification says that a non-2xx response is a
  transport error carrying the status code.
\<close>

definition raise_for_status :: "int \<Rightarrow> error + unit" where
  "raise_for_status status_code =
     (if 200 \<le> status_code \<and> status_code < 300 then Inr ()
      else Inl (HTTPStatusError status_code))"

definition emit :: "event list \<Rightarrow> event list \<times> 'a \<Rightarrow> event list \<times> 'a" where
  "emit evs r = (evs @ fst r, snd r)"

text \<open>
  The ways out of the \<^verbatim>\<open>while\<close> loop of lines 114 to 124, each with the loop
  variables at that point: the condition became false (\<open>Exit task\<close>), the
  \<^verbatim>\<open>return None\<close> of line 121 (\<open>GiveUp task\<close>), an exception, or the loop is about to
  wait and poll again when no reply is left (\<open>Stalled task http_failures\<close>).
\<close>

datatype loop_exit =
    Exit json
  | GiveUp json
  | Raised error
  | Stalled json nat

fun poll_loop :: "json \<Rightarrow> nat \<Rightarrow> reply list \<Rightarrow> event list \<times> loop_exit" where
  "poll_loop task http_failures replies =
     (case getitem task ''task_status'' of
        Inl e \<Rightarrow> ([], Raised e)
      | Inr st \<Rightarrow>
          if st = JStr ''success'' \<or> st = JStr ''failure'' then ([], Exit task)
          else
            (case getitem task ''task_id'' of
               Inl e \<Rightarrow> ([Sleep], Raised e)
             | Inr tid \<Rightarrow>
                 (case replies of
                    [] \<Rightarrow> ([], Stalled task http_failures)
                  | NoReply # rest \<Rightarrow> ([Sleep, Request (GetPoll tid)], Raised RequestError)
                  | Reply status_code body # rest \<Rightarrow>
                      if status_code > retry_status_code then
                        if http_failures + 1 > MAX_500_RETRIES then
                          ([Sleep, Request (GetPoll tid), Log (TooManyFailures status_code)],
                           GiveUp task)
                        else
                          emit [Sleep, Request (GetPoll tid)]
                            (poll_loop task (http_failures + 1) rest)
                      else
                        (case body of
                           None \<Rightarrow> ([Sleep, Request (GetPoll tid)], Raised ValueError)
                         | Some task' \<Rightarrow>
                             emit [Sleep, Request (GetPoll tid)]
                               (poll_loop task' http_failures rest)))))"

declare poll_loop.simps [simp del]

text \<open>
  Lines 130 to 139: the check of \<^verbatim>\<open>result["document"]\<close> and the validation of its
  \<^verbatim>\<open>json_content\<close>. The validator \<^verbatim>\<open>DoclingDocument.model_validate\<close> is external:
  \<open>validate\<close> returns \<open>None\<close> where it raises \<^verbatim>\<open>ValidationError\<close>.
\<close>

definition extract_document ::
  "(json \<Rightarrow> 'd option) \<Rightarrow> string \<Rightarrow> json \<Rightarrow> event list \<times> 'd Data option run" where
  "extract_document validate fpath result =
     (case getitem result ''document'' of
        Inl e \<Rightarrow> ([], Raise e)
      | Inr document \<Rightarrow>
          (case contains ''json_content'' document of
             Inl e \<Rightarrow> ([], Raise e)
           | Inr False \<Rightarrow> ([Log NoJsonDocument], Return None)
           | Inr True \<Rightarrow>
               (case getitem document ''json_content'' of
                  Inl e \<Rightarrow> ([], Raise e)
                | Inr content \<Rightarrow>
                    if content = JNull then ([Log NoJsonDocument], Return None)
                    else
                      (case validate content of
                         None \<Rightarrow> ([Log ValidationFailed], Return None)
                       | Some d \<Rightarrow>
                           ([], Return (Some \<lparr>doc = d, file_path = fpath\<rparr>))))))"

text \<open>
  Lines 127 to 139: what the routine makes of the response to the result fetch.
\<close>

definition check_result ::
  "(json \<Rightarrow> 'd option) \<Rightarrow> string \<Rightarrow> reply \<Rightarrow> event list \<times> 'd Data option run" where
  "check_result validate fpath result_resp =
     (case result_resp of
        NoReply \<Rightarrow> ([], Raise RequestError)
      | Reply status_code body \<Rightarrow>
          (case raise_for_status status_code of
             Inl e \<Rightarrow> ([], Raise e)
           | Inr _ \<Rightarrow>
               (case body of
                  None \<Rightarrow> ([], Raise ValueError)
                | Some result \<Rightarrow> extract_document validate fpath result)))"

text \<open>
  Line 126 and what follows it: the result fetch for the task that the loop left, whatever
  its status.
\<close>

definition fetch_result ::
  "(json \<Rightarrow> 'd option) \<Rightarrow> string \<Rightarrow> json \<Rightarrow> reply \<Rightarrow> event list \<times> 'd Data option run" where
  "fetch_result validate fpath task result_resp =
     (case getitem task ''task_id'' of
        Inl e \<Rightarrow> ([], Raise e)
      | Inr tid \<Rightarrow>
          emit [Request (GetResult tid)] (check_result validate fpath result_resp))"

text \<open>
  \<^verbatim>\<open>_convert_document(client, file_path, options)\<close>, lines 101 to 139. The client is
  represented by the script of replies it will deliver, and \<open>fpath\<close> is the
  argument \<^verbatim>\<open>file_path\<close>. The result is the sequence of
  requests, sleeps and log lines of the call, and how the call ends.
\<close>

definition convert_document ::
  "(json \<Rightarrow> 'd option) \<Rightarrow> script \<Rightarrow> string \<Rightarrow> json \<Rightarrow> event list \<times> 'd Data option run" where
  "convert_document validate client fpath options =
     (case file_bytes client of
        None \<Rightarrow> ([], Raise OSError)
      | Some bytes \<Rightarrow>
          emit [Request (PostConvert options fpath bytes)]
            (case submit_reply client of
               NoReply \<Rightarrow> ([], Raise RequestError)
             | Reply status_code body \<Rightarrow>
                 (case raise_for_status status_code of
                    Inl e \<Rightarrow> ([], Raise e)
                  | Inr _ \<Rightarrow>
                      (case body of
                         None \<Rightarrow> ([], Raise ValueError)
                       | Some task \<Rightarrow>
                           (case poll_loop task 0 (poll_replies client) of
                              (tr, Raised e) \<Rightarrow> (tr, Raise e)
                            | (tr, GiveUp _) \<Rightarrow> (tr, Return None)
                            | (tr, Stalled _ _) \<Rightarrow> (tr, Stall)
                            | (tr, Exit task') \<Rightarrow>
                                emit tr
                                  (fetch_result validate fpath task'
                                     (result_reply client)))))))"

section \<open>The batch\<close>

text \<open>
  Line 141 to 146: the fixed options, overridden by \<^verbatim>\<open>self.docling_serve_opts\<close> (the
  component's entries come first, so \<open>map_of\<close> finds them first).
\<close>

definition docling_options :: "component \<Rightarrow> json" where
  "docling_options self =
     JObj (docling_serve_opts self @
       [(''to_formats'', JArr [JStr ''json'']),
        (''image_export_mode'', JStr ''placeholder''),
        (''return_as_file'', JBool False)])"

text \<open>
  The first loop, lines 151 to 156, over \<^verbatim>\<open>enumerate(file_list)\<close>. A future is
  represented by the pair of the index and the path that were handed to
  \<^verbatim>\<open>executor.submit\<close>.
\<close>

fun submit_loop ::
  "(nat \<times> BaseFile) list \<Rightarrow> 'a option list \<times> (nat \<times> string) list \<Rightarrow>
   'a option list \<times> (nat \<times> string) list" where
  "submit_loop [] (processed_data, futures) = (processed_data, futures)"
| "submit_loop ((i, file) # rest) (processed_data, futures) =
     (case path file of
        None \<Rightarrow> submit_loop rest (processed_data @ [None], futures)
      | Some p \<Rightarrow> submit_loop rest (processed_data, futures @ [(i, p)]))"

text \<open>
  The worker pool. \<open>env i\<close> is the script of the pipeline of input \<open>i\<close>, and \<open>order\<close> is
  the sequence in which the pool completes the futures, given by their positions in
  \<open>futures\<close>. \<open>completed\<close> is the table of the futures that are done, and
  \<open>future_result\<close> is \<^verbatim>\<open>future.result()\<close>: it hands out what the pipeline returned or
  raised, and blocks for a future that never completes.
\<close>

definition pipeline ::
  "component \<Rightarrow> (json \<Rightarrow> 'd option) \<Rightarrow> (nat \<Rightarrow> script) \<Rightarrow> nat \<times> string \<Rightarrow>
   event list \<times> 'd Data option run" where
  "pipeline self validate env fut =
     convert_document validate (env (fst fut)) (snd fut) (docling_options self)"

definition completed ::
  "component \<Rightarrow> (json \<Rightarrow> 'd option) \<Rightarrow> (nat \<Rightarrow> script) \<Rightarrow> (nat \<times> string) list \<Rightarrow>
   nat list \<Rightarrow> (nat \<times> event list \<times> 'd Data option run) list" where
  "completed self validate env futures order =
     map (\<lambda>j. (j, pipeline self validate env (futures ! j)))
       (filter (\<lambda>j. j < length futures) order)"

definition future_result :: "(nat \<times> event list \<times> 'a run) list \<Rightarrow> nat \<Rightarrow> 'a run" where
  "future_result done j =
     (case map_of done j of None \<Rightarrow> Stall | Some (tr, r) \<Rightarrow> r)"

text \<open>
  The second loop, lines 158 to 169, over the outcomes of \<^verbatim>\<open>future.result()\<close> in the
  order of \<open>futures\<close>. The \<^verbatim>\<open>except\<close> clause logs and re-raises the four listed
  exception classes; any other exception propagates without the log line.
\<close>

fun listed :: "error \<Rightarrow> bool" where
  "listed (HTTPStatusError _) = True"
| "listed RequestError = True"
| "listed (KeyError _) = True"
| "listed ValueError = True"
| "listed _ = False"

fun result_loop :: "'a run list \<Rightarrow> 'a list \<Rightarrow> event list \<times> 'a list run" where
  "result_loop [] processed_data = ([], Return processed_data)"
| "result_loop (Return result_data # rest) processed_data =
     result_loop rest (processed_data @ [result_data])"
| "result_loop (Raise e # rest) processed_data =
     ((if listed e then [Log ErrorOccurred] else []), Raise e)"
| "result_loop (Stall # rest) processed_data = ([], Stall)"

text \<open>
  Modelled from the spec: the exit of the \<^verbatim>\<open>with\<close> block of line 149 is the
  executor's own, from the standard library and outside the sources. Section 5 of the
  specification says that the pool is drained on the way out: all already-started pipelines
  run to completion before the batch call returns, also when what it returns is an error.
  \<open>pool_exit done n r\<close> is how the block is left when its body ends with \<open>r\<close>, for \<open>n\<close>
  submitted futures and the table \<open>done\<close> of the completed ones: with \<open>r\<close> once every
  future is done, and not at all as long as one of them is not.
\<close>

definition pool_exit :: "(nat \<times> event list \<times> 'a run) list \<Rightarrow> nat \<Rightarrow> 'b run \<Rightarrow> 'b run" where
  "pool_exit done n r =
     (if list_all (\<lambda>j. future_result done j \<noteq> Stall) [0..<n] then r else Stall)"

text \<open>
  Lines 148 to 169: the list \<^verbatim>\<open>processed_data\<close> as it stands at line 171, or the
  exception that leaves the \<^verbatim>\<open>with\<close> block. The executor's constructor raises
  \<open>ValueError\<close> for a pool of no workers. Both loops run inside the block, so what the
  second loop returns or raises reaches the caller through the exit of the pool.
\<close>

definition processed_data ::
  "component \<Rightarrow> (json \<Rightarrow> 'd option) \<Rightarrow> (nat \<Rightarrow> script) \<Rightarrow> nat list \<Rightarrow> BaseFile list \<Rightarrow>
   event list \<times> 'd Data option list run" where
  "processed_data self validate env order file_list =
     (if max_concurrency self \<le> 0 then ([], Raise ValueError)
      else
        (case submit_loop (enumerate 0 file_list) ([], []) of
           (slots, futures) \<Rightarrow>
             (case result_loop
                 (map (future_result (completed self validate env futures order))
                    [0..<length futures])
                 slots of
                (log, r) \<Rightarrow>
                  (log, pool_exit (completed self validate env futures order)
                          (length futures) r))))"

text \<open>
  Modelled from the spec: \<^verbatim>\<open>rollup_data\<close> is a method of the base class
  \<^verbatim>\<open>BaseFileComponent\<close>, which is not part of the sources at hand. Sections 3, 4.4 and
  6 of the specification describe the result of the batch as an ordered sequence with one
  entry per input, index-aligned, the entry of an input being its slot in the caller's
  representation. Here the entry of input \<open>i\<close> is the pair of that input and the slot at
  index \<open>i\<close>.
\<close>

definition rollup_data :: "BaseFile list \<Rightarrow> 'a list \<Rightarrow> (BaseFile \<times> 'a) list" where
  "rollup_data base_files data_list = zip base_files data_list"

text \<open>\<^verbatim>\<open>process_files\<close>, lines 96 to 171.\<close>

definition process_files ::
  "component \<Rightarrow> (json \<Rightarrow> 'd option) \<Rightarrow> (nat \<Rightarrow> script) \<Rightarrow> nat list \<Rightarrow> BaseFile list \<Rightarrow>
   event list \<times> (BaseFile \<times> 'd Data option) list run" where
  "process_files self validate env order file_list =
     (case processed_data self validate env order file_list of
        (log, Raise e) \<Rightarrow> (log, Raise e)
      | (log, Stall) \<Rightarrow> (log, Stall)
      | (log, Return slots) \<Rightarrow> (log, Return (rollup_data file_list slots)))"

section \<open>Notions used in the statements\<close>

text \<open>
  The loop condition of line 114, as two predicates on the task: the job is still in
  progress (the loop goes on), or its status is one of the two terminal tokens.
\<close>

definition in_progress :: "json \<Rightarrow> bool" where
  "in_progress task \<longleftrightarrow>
     (case getitem task ''task_status'' of
        Inl e \<Rightarrow> False
      | Inr st \<Rightarrow> st \<noteq> JStr ''success'' \<and> st \<noteq> JStr ''failure'')"

definition terminal :: "json \<Rightarrow> bool" where
  "terminal task \<longleftrightarrow>
     (case getitem task ''task_status'' of
        Inl e \<Rightarrow> False
      | Inr st \<Rightarrow> st = JStr ''success'' \<or> st = JStr ''failure'')"

text \<open>
  A poll reply counts against the retry budget when its status code is above the threshold
  of line 117. A reply keeps the loop polling when its status code is not above the
  threshold and its body is a task in progress that carries its identifier.
\<close>

fun qualifying :: "reply \<Rightarrow> bool" where
  "qualifying NoReply = False"
| "qualifying (Reply s b) = (retry_status_code < s)"

fun keeps_polling :: "reply \<Rightarrow> bool" where
  "keeps_polling (Reply s (Some task)) =
     (s \<le> retry_status_code \<and> in_progress task \<and> \<not> isl (getitem task ''task_id''))"
| "keeps_polling _ = False"

text \<open>
  The longest run of consecutive qualifying replies in a sequence of poll replies, \<open>cur\<close>
  being the length of the run that is open at the start.
\<close>

fun longest_run :: "nat \<Rightarrow> reply list \<Rightarrow> nat" where
  "longest_run cur [] = cur"
| "longest_run cur (r # rs) =
     (if qualifying r then longest_run (Suc cur) rs else max cur (longest_run 0 rs))"

text \<open>
  The outcome of one input of the batch: nothing for an input without a path, and else what
  its pipeline returns or raises.
\<close>

definition outcome ::
  "component \<Rightarrow> (json \<Rightarrow> 'd option) \<Rightarrow> (nat \<Rightarrow> script) \<Rightarrow> nat \<times> BaseFile \<Rightarrow>
   'd Data option run" where
  "outcome self validate env input =
     (case path (snd input) of
        None \<Rightarrow> Return None
      | Some p \<Rightarrow> snd (pipeline self validate env (fst input, p)))"

definition no_path :: "nat \<times> BaseFile \<Rightarrow> bool" where
  "no_path input \<longleftrightarrow> path (snd input) = None"

text \<open>
  The futures that the first loop of \<^verbatim>\<open>process_files\<close> creates for a list of inputs,
  and, for each of them, the index of its input with the events of its pipeline. Every
  request of a batch call is an event of one of these pipelines.
\<close>

definition futures_of :: "BaseFile list \<Rightarrow> (nat \<times> string) list" where
  "futures_of file_list =
     snd (submit_loop (enumerate 0 file_list) ([] :: unit option list, []))"

definition pipeline_traces ::
  "component \<Rightarrow> (json \<Rightarrow> 'd option) \<Rightarrow> (nat \<Rightarrow> script) \<Rightarrow> BaseFile list \<Rightarrow>
   (nat \<times> event list) list" where
  "pipeline_traces self validate env file_list =
     map (\<lambda>fut. (fst fut, fst (pipeline self validate env fut))) (futures_of file_list)"

text \<open>The futures in closed form: one for each input with a path, in the order of the inputs.\<close>

definition started :: "(nat \<times> BaseFile) list \<Rightarrow> (nat \<times> string) list" where
  "started inputs =
     concat (map (\<lambda>input. case path (snd input) of None \<Rightarrow> [] | Some p \<Rightarrow> [(fst input, p)])
       inputs)"

text \<open>
  Transport and protocol errors, read off a reply. \<open>body_fault keys b\<close> is the protocol
  error of a body in which the keys \<open>keys\<close> are expected: it does not parse, it is not an
  object, or a key is missing. \<open>request_fault\<close> is for the submission and the result
  fetch, where any status outside 2xx is a transport error; \<open>poll_fault\<close> is for a poll,
  where a reply above the retry threshold is not read at all.
\<close>

fun body_fault :: "string list \<Rightarrow> json option \<Rightarrow> error option" where
  "body_fault keys None = Some ValueError"
| "body_fault keys (Some (JObj kvs)) =
     (case filter (\<lambda>k. map_of kvs k = None) keys of
        [] \<Rightarrow> None
      | k # ks \<Rightarrow> Some (KeyError k))"
| "body_fault keys (Some j) = Some TypeError"

fun request_fault :: "string list \<Rightarrow> reply \<Rightarrow> error option" where
  "request_fault keys NoReply = Some RequestError"
| "request_fault keys (Reply s b) =
     (if 200 \<le> s \<and> s < 300 then body_fault keys b else Some (HTTPStatusError s))"

fun poll_fault :: "reply \<Rightarrow> error option" where
  "poll_fault NoReply = Some RequestError"
| "poll_fault (Reply s b) =
     (if retry_status_code < s then None else body_fault [''task_status'', ''task_id''] b)"

text \<open>
  \<open>fault client e\<close>: in the run against \<open>client\<close>, the first transport or protocol error
  is \<open>e\<close>. It occurs at the submission, at a poll that the loop reaches, or at the
  result fetch.
\<close>

inductive fault :: "script \<Rightarrow> error \<Rightarrow> bool" where
  at_submit:
    "request_fault [''task_status'', ''task_id''] (submit_reply client) = Some e \<Longrightarrow>
     fault client e"
| at_poll:
    "submit_reply client = Reply s (Some task0) \<Longrightarrow>
     request_fault [''task_status'', ''task_id''] (submit_reply client) = None \<Longrightarrow>
     poll_replies client = pre @ r # rest \<Longrightarrow>
     snd (poll_loop task0 0 pre) = Stalled task k \<Longrightarrow>
     poll_fault r = Some e \<Longrightarrow>
     fault client e"
| at_result:
    "submit_reply client = Reply s (Some task0) \<Longrightarrow>
     request_fault [''task_status'', ''task_id''] (submit_reply client) = None \<Longrightarrow>
     snd (poll_loop task0 0 (poll_replies client)) = Exit final \<Longrightarrow>
     getitem final ''task_id'' = Inr tid \<Longrightarrow>
     request_fault [''document''] (result_reply client) = Some e \<Longrightarrow>
     fault client e"

section \<open>Sample inputs\<close>

definition task_body :: "string \<Rightarrow> json" where
  "task_body st = JObj [(''task_id'', JStr ''t1''), (''task_status'', JStr st)]"

definition document_body :: "(string \<times> json) list \<Rightarrow> json" where
  "document_body kvs = JObj [(''document'', JObj kvs)]"

definition good_result :: json where
  "good_result = document_body [(''json_content'', JObj [(''name'', JStr ''a'')])]"

definition server :: "string \<Rightarrow> reply list \<Rightarrow> reply \<Rightarrow> script" where
  "server st polls result =
     \<lparr>file_bytes = Some ''PDF'',
      submit_reply = Reply 200 (Some (task_body st)),
      poll_replies = polls,
      result_reply = result\<rparr>"

definition ready :: script where
  "ready = server ''success'' [] (Reply 200 (Some good_result))"

definition no_payload :: script where
  "no_payload = server ''success'' [] (Reply 200 (Some (document_body [(''json_content'', JNull)])))"

definition no_document :: script where
  "no_document = server ''success'' [] (Reply 200 (Some (JObj [(''detail'', JStr ''gone'')])))"

definition refused :: script where
  "refused =
     \<lparr>file_bytes = Some ''PDF'', submit_reply = Reply 503 None, poll_replies = [],
      result_reply = NoReply\<rparr>"

definition second_is :: "script \<Rightarrow> nat \<Rightarrow> script" where
  "second_is client i = (if i = 1 then client else ready)"

definition array_document :: script where
  "array_document = server ''success'' [] (Reply 200 (Some (JObj [(''document'', JArr [])])))"

definition first_is :: "script \<Rightarrow> nat \<Rightarrow> script" where
  "first_is client i = (if i = 0 then client else ready)"

definition busy :: reply where
  "busy = Reply 200 (Some (task_body ''running''))"

definition bad_gateway :: reply where
  "bad_gateway = Reply 502 None"

definition finished :: "string \<Rightarrow> reply" where
  "finished st = Reply 200 (Some (task_body st))"

definition flaky_polls :: "reply list" where
  "flaky_polls =
     [bad_gateway, busy, bad_gateway, busy, bad_gateway, busy, bad_gateway, busy,
      bad_gateway, busy, bad_gateway, finished ''success'']"

definition two_workers :: component where
  "two_workers = \<lparr>max_concurrency = 2, docling_serve_opts = []\<rparr>"

definition with_path :: "string \<Rightarrow> BaseFile" where
  "with_path p = \<lparr>path = Some p\<rparr>"

definition without_path :: BaseFile where
  "without_path = \<lparr>path = None\<rparr>"

definition same_server :: "script \<Rightarrow> nat \<Rightarrow> script" where
  "same_server client i = client"

definition accept :: "json \<Rightarrow> json option" where
  "accept content = Some content"

section \<open>The poll loop, case by case\<close>

lemma emit_Nil [simp]: "emit [] r = r"
  by (simp add: emit_def)

lemma emit_emit [simp]: "emit xs (emit ys r) = emit (xs @ ys) r"
  by (simp add: emit_def)

lemma emit_Pair [simp]: "emit xs (ys, v) = (xs @ ys, v)"
  by (simp add: emit_def)

lemma snd_emit [simp]: "snd (emit xs r) = snd r"
  by (simp add: emit_def)

lemma fst_emit [simp]: "fst (emit xs r) = xs @ fst r"
  by (simp add: emit_def)

lemma poll_loop_terminal:
  "terminal task \<Longrightarrow> poll_loop task k replies = ([], Exit task)"
  by (subst poll_loop.simps) (auto simp: terminal_def split: sum.splits)

lemma poll_loop_Nil:
  "in_progress task \<Longrightarrow> getitem task ''task_id'' = Inr tid \<Longrightarrow>
   poll_loop task k [] = ([], Stalled task k)"
  by (subst poll_loop.simps) (auto simp: in_progress_def split: sum.splits)

lemma poll_loop_NoReply:
  "in_progress task \<Longrightarrow> getitem task ''task_id'' = Inr tid \<Longrightarrow>
   poll_loop task k (NoReply # rest) = ([Sleep, Request (GetPoll tid)], Raised RequestError)"
  by (subst poll_loop.simps) (auto simp: in_progress_def split: sum.splits)

lemma poll_loop_retry:
  "in_progress task \<Longrightarrow> getitem task ''task_id'' = Inr tid \<Longrightarrow>
   retry_status_code < s \<Longrightarrow> k < MAX_500_RETRIES \<Longrightarrow>
   poll_loop task k (Reply s b # rest) =
     emit [Sleep, Request (GetPoll tid)] (poll_loop task (Suc k) rest)"
  by (subst poll_loop.simps) (auto simp: in_progress_def split: sum.splits)

lemma poll_loop_give_up:
  "in_progress task \<Longrightarrow> getitem task ''task_id'' = Inr tid \<Longrightarrow>
   retry_status_code < s \<Longrightarrow> MAX_500_RETRIES \<le> k \<Longrightarrow>
   poll_loop task k (Reply s b # rest) =
     ([Sleep, Request (GetPoll tid), Log (TooManyFailures s)], GiveUp task)"
  by (subst poll_loop.simps) (auto simp: in_progress_def split: sum.splits)

lemma poll_loop_unparsable:
  "in_progress task \<Longrightarrow> getitem task ''task_id'' = Inr tid \<Longrightarrow>
   s \<le> retry_status_code \<Longrightarrow>
   poll_loop task k (Reply s None # rest) =
     ([Sleep, Request (GetPoll tid)], Raised ValueError)"
  by (subst poll_loop.simps) (auto simp: in_progress_def split: sum.splits)

lemma poll_loop_refresh:
  "in_progress task \<Longrightarrow> getitem task ''task_id'' = Inr tid \<Longrightarrow>
   s \<le> retry_status_code \<Longrightarrow>
   poll_loop task k (Reply s (Some task') # rest) =
     emit [Sleep, Request (GetPoll tid)] (poll_loop task' k rest)"
  by (subst poll_loop.simps) (auto simp: in_progress_def split: sum.splits)

lemma poll_loop_Stalled:
  "snd (poll_loop task k replies) = Stalled task' k' \<Longrightarrow>
   in_progress task' \<and> (\<exists>tid. getitem task' ''task_id'' = Inr tid) \<and> k \<le> k' \<and>
   (k \<le> MAX_500_RETRIES \<longrightarrow> k' \<le> MAX_500_RETRIES)"
proof (induction replies arbitrary: task k)
  case Nil
  then show ?case
    by (subst (asm) poll_loop.simps) (auto simp: in_progress_def split: sum.splits if_splits)
next
  case (Cons r rest)
  from Cons.prems show ?case
    apply (subst (asm) poll_loop.simps)
    apply (auto split: sum.splits if_splits reply.splits option.splits dest!: Cons.IH)
    done
qed

lemma poll_loop_Stalled_start:
  "snd (poll_loop task k replies) = Stalled task' k' \<Longrightarrow>
   in_progress task \<and> (\<exists>tid. getitem task ''task_id'' = Inr tid)"
  by (subst (asm) poll_loop.simps) (auto simp: in_progress_def split: sum.splits if_splits)

lemma poll_loop_append:
  "snd (poll_loop task k pre) = Stalled task' k' \<Longrightarrow>
   poll_loop task k (pre @ rest) = emit (fst (poll_loop task k pre)) (poll_loop task' k' rest)"
proof (induction pre arbitrary: task k)
  case Nil
  from poll_loop_Stalled_start [OF Nil] obtain tid
    where start: "in_progress task" "getitem task ''task_id'' = Inr tid"
    by blast
  with Nil show ?case
    by (simp add: poll_loop_Nil)
next
  case (Cons r pre)
  from poll_loop_Stalled_start [OF Cons.prems] obtain tid
    where start: "in_progress task" "getitem task ''task_id'' = Inr tid"
    by blast
  show ?case
  proof (cases r)
    case NoReply
    with Cons.prems start show ?thesis
      by (simp add: poll_loop_NoReply)
  next
    case (Reply s b)
    show ?thesis
    proof (cases "retry_status_code < s")
      case True
      show ?thesis
      proof (cases "k < MAX_500_RETRIES")
        case True
        with \<open>retry_status_code < s\<close> Reply start Cons.prems Cons.IH [of task "Suc k"]
        show ?thesis
          by (simp add: poll_loop_retry)
      next
        case False
        with \<open>retry_status_code < s\<close> Reply start Cons.prems show ?thesis
          by (simp add: poll_loop_give_up)
      qed
    next
      case False
      show ?thesis
      proof (cases b)
        case None
        with False Reply start Cons.prems show ?thesis
          by (simp add: poll_loop_unparsable)
      next
        case (Some t)
        with False Reply start Cons.prems Cons.IH [of t k] show ?thesis
          by (simp add: poll_loop_refresh)
      qed
    qed
  qed
qed

lemma qualifying_cases:
  "qualifying r \<Longrightarrow> (\<And>s b. r = Reply s b \<Longrightarrow> retry_status_code < s \<Longrightarrow> P) \<Longrightarrow> P"
  by (cases r) auto

lemma poll_loop_errors:
  "in_progress task \<Longrightarrow> getitem task ''task_id'' = Inr tid \<Longrightarrow> k \<le> MAX_500_RETRIES \<Longrightarrow>
   \<forall>r\<in>set errs. qualifying r \<Longrightarrow> MAX_500_RETRIES - k < length errs \<Longrightarrow>
   poll_loop task k (errs @ rest) =
     (concat (replicate (Suc MAX_500_RETRIES - k) [Sleep, Request (GetPoll tid)]) @
        [Log (TooManyFailures (reply_status (errs ! (MAX_500_RETRIES - k))))],
      GiveUp task)"
proof (induction errs arbitrary: k)
  case Nil
  then show ?case by simp
next
  case (Cons r errs)
  from Cons.prems obtain s b where r: "r = Reply s b" "retry_status_code < s"
    by (auto elim: qualifying_cases)
  show ?case
  proof (cases "k < MAX_500_RETRIES")
    case True
    then have step: "Suc MAX_500_RETRIES - k = Suc (Suc MAX_500_RETRIES - Suc k)"
      and idx: "MAX_500_RETRIES - k = Suc (MAX_500_RETRIES - Suc k)"
      by arith+
    from True Cons.prems have "poll_loop task (Suc k) (errs @ rest) =
      (concat (replicate (Suc MAX_500_RETRIES - Suc k) [Sleep, Request (GetPoll tid)]) @
        [Log (TooManyFailures (reply_status (errs ! (MAX_500_RETRIES - Suc k))))],
      GiveUp task)"
      by (intro Cons.IH) auto
    with True r Cons.prems(1,2) show ?thesis
      by (simp add: poll_loop_retry step idx del: replicate.simps) simp
  next
    case False
    with Cons.prems have "k = MAX_500_RETRIES" by simp
    with r Cons.prems(1,2) show ?thesis
      by (simp add: poll_loop_give_up)
  qed
qed


lemma convert_document_submitted:
  "file_bytes client = Some bytes \<Longrightarrow> submit_reply client = Reply sc (Some task0) \<Longrightarrow>
   200 \<le> sc \<Longrightarrow> sc < 300 \<Longrightarrow>
   convert_document validate client fpath options =
     emit (Request (PostConvert options fpath bytes) # fst (poll_loop task0 0 (poll_replies client)))
       (case snd (poll_loop task0 0 (poll_replies client)) of
          Raised e \<Rightarrow> ([], Raise e)
        | GiveUp t \<Rightarrow> ([], Return None)
        | Stalled t k \<Rightarrow> ([], Stall)
        | Exit final \<Rightarrow> fetch_result validate fpath final (result_reply client))"
  by (simp add: convert_document_def raise_for_status_def split: prod.splits loop_exit.splits)

lemma poll_loop_tolerated:
  "in_progress task \<Longrightarrow> \<not> isl (getitem task ''task_id'') \<Longrightarrow>
   \<forall>r\<in>set pre. qualifying r \<or> keeps_polling r \<Longrightarrow>
   k + length (filter qualifying pre) \<le> MAX_500_RETRIES \<Longrightarrow>
   \<exists>task'. snd (poll_loop task k pre) = Stalled task' (k + length (filter qualifying pre))"
proof (induction pre arbitrary: task k)
  case Nil
  then obtain tid where "getitem task ''task_id'' = Inr tid"
    by (cases "getitem task ''task_id''") auto
  with Nil show ?case
    by (simp add: poll_loop_Nil)
next
  case (Cons r pre)
  from Cons.prems obtain tid where tid: "getitem task ''task_id'' = Inr tid"
    by (cases "getitem task ''task_id''") auto
  show ?case
  proof (cases "qualifying r")
    case True
    then obtain s b where r: "r = Reply s b" "retry_status_code < s"
      by (auto elim: qualifying_cases)
    from True Cons.prems have "k < MAX_500_RETRIES"
      and "Suc k + length (filter qualifying pre) \<le> MAX_500_RETRIES"
      by simp_all
    with Cons.IH [of task "Suc k"] Cons.prems r tid True show ?thesis
      by (simp add: poll_loop_retry)
  next
    case False
    with Cons.prems have "keeps_polling r"
      by simp
    then obtain s t where r: "r = Reply s (Some t)" "s \<le> retry_status_code"
      "in_progress t" "\<not> isl (getitem t ''task_id'')"
      by (cases r rule: keeps_polling.cases) auto
    with Cons.IH [of t k] Cons.prems tid False show ?thesis
      by (simp add: poll_loop_refresh)
  qed
qed

lemma extract_document_events:
  "set (fst (extract_document validate fpath result)) \<subseteq> range Log"
  by (auto simp: extract_document_def split: sum.splits bool.splits option.splits if_splits)

lemma check_result_events:
  "set (fst (check_result validate fpath result_resp)) \<subseteq> range Log"
  using extract_document_events [of validate fpath]
  by (auto simp: check_result_def split: reply.splits sum.splits option.splits)

lemma fetch_result_events:
  "set (fst (fetch_result validate fpath task result_resp)) \<subseteq> range Log \<union> range (Request \<circ> GetResult)"
  using check_result_events [of validate fpath result_resp]
  by (auto simp: fetch_result_def split: sum.splits)

section \<open>The two loops of the batch\<close>

lemma submit_loop_eq:
  "submit_loop inputs (slots, futures) =
     (slots @ replicate (length (filter no_path inputs)) None, futures @ started inputs)"
proof (induction inputs arbitrary: slots futures)
  case Nil
  then show ?case by (simp add: started_def)
next
  case (Cons input inputs)
  obtain i f where input: "input = (i, f)"
    by (cases input)
  show ?case
    by (cases "path f")
      (simp_all add: input Cons.IH started_def no_path_def replicate_app_Cons_same)
qed

lemma futures_of_eq: "futures_of file_list = started (enumerate 0 file_list)"
  by (simp add: futures_of_def submit_loop_eq)

lemma started_outcome:
  "map (\<lambda>fut. snd (pipeline self validate env fut)) (started inputs) =
   map (outcome self validate env) (filter (\<lambda>input. \<not> no_path input) inputs)"
  by (induction inputs) (auto simp: started_def outcome_def no_path_def)

lemma no_path_outcome:
  "map Return (replicate (length (filter no_path inputs)) None) =
   map (outcome self validate env) (filter no_path inputs)"
  by (induction inputs) (auto simp: outcome_def no_path_def)

lemma in_started_iff:
  "(i, p) \<in> set (started inputs) \<longleftrightarrow> (\<exists>f. (i, f) \<in> set inputs \<and> path f = Some p)"
  by (induction inputs) (auto simp: started_def split: option.splits)

lemma result_loop_returns:
  "result_loop (map Return ds @ rest) slots = result_loop rest (slots @ ds)"
  by (induction ds arbitrary: slots) simp_all

lemma result_loop_all_return:
  "result_loop (map Return ds) slots = ([], Return (slots @ ds))"
  using result_loop_returns [of ds "[]" slots] by simp

lemma result_loop_not_Return:
  "r \<in> set rs \<Longrightarrow> \<forall>d. r \<noteq> Return d \<Longrightarrow> snd (result_loop rs slots) \<noteq> Return out"
  by (induction rs slots rule: result_loop.induct) auto

lemma result_loop_Raise_origin:
  "snd (result_loop rs slots) = Raise e \<Longrightarrow> Raise e \<in> set rs"
  by (induction rs slots rule: result_loop.induct) auto

lemma future_result_completed:
  "j < length futures \<Longrightarrow>
   future_result (completed self validate env futures order) j =
     (if j \<in> set order then snd (pipeline self validate env (futures ! j)) else Stall)"
  by (auto simp: future_result_def completed_def map_of_map_restrict restrict_map_def
      split: option.splits prod.splits)

lemma pool_exit_completed:
  "pool_exit (completed self validate env futures order) (length futures) r =
     (if \<forall>j<length futures. j \<in> set order \<and> snd (pipeline self validate env (futures ! j)) \<noteq> Stall
      then r else Stall)"
proof -
  have "list_all (\<lambda>j. future_result (completed self validate env futures order) j \<noteq> Stall)
          [0..<length futures] \<longleftrightarrow>
        (\<forall>j<length futures. j \<in> set order \<and> snd (pipeline self validate env (futures ! j)) \<noteq> Stall)"
    by (auto simp: list_all_iff future_result_completed)
  then show ?thesis
    by (simp add: pool_exit_def)
qed

lemma processed_data_eq:
  assumes "0 < max_concurrency self"
  shows "processed_data self validate env order file_list =
     (case result_loop
         (map (\<lambda>j. if j \<in> set order
                    then snd (pipeline self validate env (started (enumerate 0 file_list) ! j))
                    else Stall)
            [0..<length (started (enumerate 0 file_list))])
         (replicate (length (filter no_path (enumerate 0 file_list))) None) of
        (log, r) \<Rightarrow>
          (log, pool_exit (completed self validate env (started (enumerate 0 file_list)) order)
                  (length (started (enumerate 0 file_list))) r))"
proof -
  have eq: "map (future_result (completed self validate env (started (enumerate 0 file_list)) order))
          [0..<length (started (enumerate 0 file_list))] =
        map (\<lambda>j. if j \<in> set order
                  then snd (pipeline self validate env (started (enumerate 0 file_list) ! j))
                  else Stall)
          [0..<length (started (enumerate 0 file_list))]"
    by (rule map_cong) (simp_all add: future_result_completed)
  from assms show ?thesis
    by (simp add: processed_data_def submit_loop_eq eq)
qed

lemma processed_data_no_workers:
  "max_concurrency self \<le> 0 \<Longrightarrow>
   processed_data self validate env order file_list = ([], Raise ValueError)"
  by (simp add: processed_data_def)

lemma pool_exit_drained:
  assumes "\<forall>j<length futures. j \<in> set order \<and>
      snd (pipeline self validate env (futures ! j)) \<noteq> Stall"
  shows "pool_exit (completed self validate env futures order) (length futures) r = r"
  unfolding pool_exit_completed by (rule if_P [OF assms])

lemma pool_exit_waiting:
  assumes "\<not> (\<forall>j<length futures. j \<in> set order \<and>
      snd (pipeline self validate env (futures ! j)) \<noteq> Stall)"
  shows "pool_exit (completed self validate env futures order) (length futures) r = Stall"
  unfolding pool_exit_completed by (rule if_not_P [OF assms])

lemma processed_data_drained:
  assumes "0 < max_concurrency self"
    and "\<forall>j<length (futures_of file_list). j \<in> set order \<and>
           snd (pipeline self validate env (futures_of file_list ! j)) \<noteq> Stall"
  shows "processed_data self validate env order file_list =
     result_loop
       (map (\<lambda>j. if j \<in> set order
                  then snd (pipeline self validate env (futures_of file_list ! j))
                  else Stall)
          [0..<length (futures_of file_list)])
       (replicate (length (filter no_path (enumerate 0 file_list))) None)"
  unfolding processed_data_eq [OF assms(1)]
    pool_exit_drained [OF assms(2) [unfolded futures_of_eq]] futures_of_eq
  by (simp split: prod.splits)

lemma processed_data_waiting:
  assumes "0 < max_concurrency self"
    and "\<not> (\<forall>j<length (futures_of file_list). j \<in> set order \<and>
           snd (pipeline self validate env (futures_of file_list ! j)) \<noteq> Stall)"
  shows "snd (processed_data self validate env order file_list) = Stall"
  unfolding processed_data_eq [OF assms(1)]
    pool_exit_waiting [OF assms(2) [unfolded futures_of_eq]]
  by (simp split: prod.splits)

lemma batch_never_returns:
  assumes "j < length (futures_of file_list)"
    and "\<forall>d. snd (pipeline self validate env (futures_of file_list ! j)) \<noteq> Return d"
  shows "snd (processed_data self validate env order file_list) \<noteq> Return out"
proof (cases "0 < max_concurrency self")
  case False
  then show ?thesis
    by (simp add: processed_data_no_workers)
next
  case True
  show ?thesis
  proof (cases "\<forall>j<length (futures_of file_list). j \<in> set order \<and>
           snd (pipeline self validate env (futures_of file_list ! j)) \<noteq> Stall")
    case False
    from processed_data_waiting [OF True False] show ?thesis
      by simp
  next
    case drained: True
    let ?run = "\<lambda>j. if j \<in> set order
                  then snd (pipeline self validate env (futures_of file_list ! j))
                  else Stall"
    from assms(1) have "j \<in> set [0..<length (futures_of file_list)]"
      by simp
    then have "?run j \<in> ?run ` set [0..<length (futures_of file_list)]"
      by (rule imageI)
    then have "?run j \<in> set (map ?run [0..<length (futures_of file_list)])"
      by (simp only: set_map)
    moreover from assms(2) have "\<forall>d. ?run j \<noteq> Return d"
      by simp
    ultimately show ?thesis
      unfolding processed_data_drained [OF True drained] by (rule result_loop_not_Return)
  qed
qed

lemma batch_returns:
  assumes "0 < max_concurrency self"
    and "\<forall>j<length (futures_of file_list). j \<in> set order"
    and "map (\<lambda>fut. snd (pipeline self validate env fut)) (futures_of file_list) = map Return ds"
  shows "processed_data self validate env order file_list =
     ([], Return (replicate (length (filter no_path (enumerate 0 file_list))) None @ ds))"
proof -
  have nth: "snd (pipeline self validate env (futures_of file_list ! j)) = Return (ds ! j)"
    if "j < length (futures_of file_list)" for j
  proof -
    from assms(3) have "length ds = length (futures_of file_list)"
      by (metis length_map)
    with that assms(3) show ?thesis
      by (metis nth_map)
  qed
  with assms(2) have drained: "\<forall>j<length (futures_of file_list). j \<in> set order \<and>
      snd (pipeline self validate env (futures_of file_list ! j)) \<noteq> Stall"
    by simp
  have "map (\<lambda>j. if j \<in> set order
                  then snd (pipeline self validate env (futures_of file_list ! j))
                  else Stall)
          [0..<length (futures_of file_list)] =
        map (\<lambda>j. (map (\<lambda>fut. snd (pipeline self validate env fut)) (futures_of file_list)) ! j)
          [0..<length (futures_of file_list)]"
    using assms(2) by (intro map_cong) simp_all
  also have "\<dots> = map (\<lambda>fut. snd (pipeline self validate env fut)) (futures_of file_list)"
    using map_nth [of "map (\<lambda>fut. snd (pipeline self validate env fut)) (futures_of file_list)"]
    by simp
  finally show ?thesis
    unfolding processed_data_drained [OF assms(1) drained]
    by (simp only: assms(3) result_loop_all_return)
qed

lemma batch_raise_drained:
  assumes "0 < max_concurrency self"
    and "snd (processed_data self validate env order file_list) = Raise e"
  shows "\<forall>j<length (futures_of file_list). j \<in> set order \<and>
      snd (pipeline self validate env (futures_of file_list ! j)) \<noteq> Stall"
proof (rule ccontr)
  assume "\<not> ?thesis"
  from processed_data_waiting [OF assms(1) this] assms(2) show False
    by simp
qed

lemma batch_raise_origin:
  assumes "snd (processed_data self validate env order file_list) = Raise e"
  shows "max_concurrency self \<le> 0 \<and> e = ValueError \<or>
    (\<exists>j<length (futures_of file_list).
       snd (pipeline self validate env (futures_of file_list ! j)) = Raise e)"
proof (cases "0 < max_concurrency self")
  case False
  with assms show ?thesis
    by (simp add: processed_data_no_workers)
next
  case True
  note drained = batch_raise_drained [OF True assms]
  from assms have "Raise e \<in> set (map (\<lambda>j. if j \<in> set order
                  then snd (pipeline self validate env (futures_of file_list ! j))
                  else Stall)
          [0..<length (futures_of file_list)])"
    unfolding processed_data_drained [OF True drained] by (rule result_loop_Raise_origin)
  then show ?thesis
    by (auto split: if_splits)
qed

lemma all_Return:
  "\<forall>x\<in>set xs. \<exists>d. f x = Return d \<Longrightarrow> \<exists>ds. map f xs = map Return ds"
  by (induction xs) (auto simp: Cons_eq_map_conv)

lemma filter_no_path_split:
  "\<forall>f\<in>set xs. path f = None \<Longrightarrow> \<forall>f\<in>set ys. path f \<noteq> None \<Longrightarrow>
   filter no_path (enumerate n (xs @ ys)) @
     filter (\<lambda>input. \<not> no_path input) (enumerate n (xs @ ys)) =
   enumerate n (xs @ ys)"
proof -
  assume xs: "\<forall>f\<in>set xs. path f = None" and ys: "\<forall>f\<in>set ys. path f \<noteq> None"
  from xs have "filter no_path (enumerate n xs) = enumerate n xs"
    "filter (\<lambda>input. \<not> no_path input) (enumerate n xs) = []"
    by (auto simp: no_path_def filter_empty_conv filter_id_conv in_set_enumerate_eq)
  moreover from ys have "filter no_path (enumerate (n + length xs) ys) = []"
    "filter (\<lambda>input. \<not> no_path input) (enumerate (n + length xs) ys) =
       enumerate (n + length xs) ys"
    by (auto simp: no_path_def filter_empty_conv filter_id_conv in_set_enumerate_eq)
  ultimately show ?thesis
    by (simp add: enumerate_append_eq)
qed

lemma ready_run:
  "convert_document accept ready p opts =
     ([Request (PostConvert opts p ''PDF''), Request (GetResult (JStr ''t1''))],
      Return (Some \<lparr>doc = JObj [(''name'', JStr ''a'')], file_path = p\<rparr>))"
  by (simp add: ready_def poll_loop.simps task_body_def
      convert_document_def server_def raise_for_status_def fetch_result_def check_result_def
      extract_document_def good_result_def document_body_def accept_def)

lemma poll_loop_events:
  "set (fst (poll_loop task k replies)) \<subseteq> insert Sleep (range Log \<union> range (Request \<circ> GetPoll))"
proof (induction replies arbitrary: task k)
  case Nil
  show ?case
    by (subst poll_loop.simps) (auto split: sum.splits)
next
  case (Cons r replies)
  show ?case
    using Cons.IH
    by (subst poll_loop.simps)
      (auto simp del: insert_subset split: sum.splits reply.splits option.splits)
qed

lemma convert_document_submission:
  assumes "Request (PostConvert opts p b) \<in> set (fst (convert_document validate client fpath options))"
  shows "p = fpath \<and> opts = options \<and> file_bytes client = Some b"
proof -
  have loop: "Request (PostConvert opts p b) \<notin> set tr"
    if "poll_loop task 0 (poll_replies client) = (tr, ex)" for task tr ex
  proof -
    from that have "tr = fst (poll_loop task 0 (poll_replies client))"
      by simp
    with poll_loop_events [of task 0 "poll_replies client"] show ?thesis
      by auto
  qed
  have fetch: "Request (PostConvert opts p b) \<notin>
      set (fst (fetch_result validate fpath task (result_reply client)))" for task
    using fetch_result_events [of validate fpath task "result_reply client"] by auto
  from assms show ?thesis
    by (auto simp: convert_document_def fetch
        split: option.splits reply.splits sum.splits prod.splits loop_exit.splits
        dest: loop)
qed

lemma result_loop_first_Raise_log:
  assumes "j < length rs" and "rs ! j = Raise e" and "\<forall>j'<j. \<exists>d. rs ! j' = Return d"
  shows "result_loop rs slots = ((if listed e then [Log ErrorOccurred] else []), Raise e)"
proof -
  from assms(1,3) have "\<forall>r\<in>set (take j rs). \<exists>d. r = Return d"
    by (auto simp: in_set_conv_nth)
  then obtain ds where ds: "take j rs = map Return ds"
    by (auto simp: ex_map_conv [symmetric])
  from assms(1,2) have "rs = take j rs @ Raise e # drop (Suc j) rs"
    using id_take_nth_drop [of j rs] by simp
  then have "result_loop rs slots = result_loop (Raise e # drop (Suc j) rs) (slots @ ds)"
    by (metis ds result_loop_returns)
  then show ?thesis
    by simp
qed

lemma batch_raises_first_log:
  assumes "0 < max_concurrency self"
    and "j < length (futures_of file_list)"
    and "snd (pipeline self validate env (futures_of file_list ! j)) = Raise e"
    and "\<forall>j'<length (futures_of file_list). j' \<in> set order \<and>
           snd (pipeline self validate env (futures_of file_list ! j')) \<noteq> Stall"
    and "\<forall>j'<j. \<exists>d. snd (pipeline self validate env (futures_of file_list ! j')) = Return d"
  shows "processed_data self validate env order file_list =
     ((if listed e then [Log ErrorOccurred] else []), Raise e)"
  unfolding processed_data_drained [OF assms(1,4)]
  using assms(2-5) by (intro result_loop_first_Raise_log [of j]) auto

lemma batch_returns_but_one:
  assumes "0 < max_concurrency self"
    and "\<forall>j'<length (futures_of file_list). j' \<in> set order"
    and "j < length (futures_of file_list)"
    and "snd (pipeline self validate env (futures_of file_list ! j)) = Return d"
    and "\<forall>j'<length (futures_of file_list). j' \<noteq> j \<longrightarrow>
           (\<exists>d'. snd (pipeline self validate env (futures_of file_list ! j')) = Return d')"
  shows "\<exists>ds. processed_data self validate env order file_list =
        ([], Return (replicate (length (filter no_path (enumerate 0 file_list))) None @ ds)) \<and>
      length ds = length (futures_of file_list) \<and> ds ! j = d \<and>
      (\<forall>j'<length (futures_of file_list).
         snd (pipeline self validate env (futures_of file_list ! j')) = Return (ds ! j'))"
proof -
  let ?run = "\<lambda>fut. snd (pipeline self validate env fut)"
  from assms(4,5) have "\<forall>fut\<in>set (futures_of file_list). \<exists>d'. ?run fut = Return d'"
    by (metis in_set_conv_nth)
  then obtain ds where ds: "map ?run (futures_of file_list) = map Return ds"
    using all_Return [of "futures_of file_list" ?run] by blast
  then have len: "length ds = length (futures_of file_list)"
    by (metis length_map)
  have nth: "?run (futures_of file_list ! j') = Return (ds ! j')"
    if "j' < length (futures_of file_list)" for j'
    using that ds len by (metis nth_map)
  from nth [OF assms(3)] assms(4) have "ds ! j = d"
    by simp
  with batch_returns [OF assms(1,2) ds] len nth show ?thesis
    by blast
qed

lemma convert_document_fetched:
  assumes "file_bytes client = Some bytes"
    and "submit_reply client = Reply sc (Some task0)" and "200 \<le> sc" and "sc < 300"
    and "snd (poll_loop task0 0 (poll_replies client)) = Exit final"
    and "getitem final ''task_id'' = Inr tid"
  shows "convert_document validate client fpath options =
      emit (Request (PostConvert options fpath bytes) #
          fst (poll_loop task0 0 (poll_replies client)) @ [Request (GetResult tid)])
        (check_result validate fpath (result_reply client))"
  by (simp add: convert_document_submitted [OF assms(1-4)] assms(5,6) fetch_result_def)

lemma two_files_futures:
  "futures_of [with_path ''a.pdf'', with_path ''b.pdf''] = [(0, ''a.pdf''), (1, ''b.pdf'')]"
  by (simp add: futures_of_def with_path_def)

lemma ready_pipeline:
  "i \<noteq> 1 \<Longrightarrow> snd (pipeline self accept (second_is client) (i, p)) =
     Return (Some \<lparr>doc = JObj [(''name'', JStr ''a'')], file_path = p\<rparr>)"
  by (simp add: pipeline_def second_is_def ready_run)

lemma ready_loop:
  "poll_loop (task_body ''success'') 0 [] = ([], Exit (task_body ''success''))"
  by (simp add: poll_loop.simps task_body_def)

lemma bad_task_loop:
  assumes "body_fault [''task_status'', ''task_id''] (Some task) = Some e"
  shows "snd (poll_loop task k replies) = Raised e \<or>
    snd (poll_loop task k replies) = Exit task \<and> getitem task ''task_id'' = Inl e"
proof (cases task)
  case (JObj kvs)
  with assms show ?thesis
    by (subst poll_loop.simps, subst (2) poll_loop.simps)
      (auto split: option.splits if_splits)
qed (use assms in \<open>simp_all add: poll_loop.simps\<close>)

lemma bad_task_run:
  assumes "body_fault [''task_status'', ''task_id''] (Some task) = Some e"
  shows "(case snd (poll_loop task k replies) of
        Raised e' \<Rightarrow> Raise e'
      | GiveUp t \<Rightarrow> Return None
      | Stalled t n \<Rightarrow> Stall
      | Exit final \<Rightarrow> snd (fetch_result validate fpath final result_resp)) = Raise e"
  using bad_task_loop [OF assms, of k replies]
  by (auto simp: fetch_result_def)

lemma convert_document_outcome:
  assumes "file_bytes client = Some bytes"
    and "submit_reply client = Reply sc (Some task0)" and "200 \<le> sc" and "sc < 300"
  shows "snd (convert_document validate client fpath options) =
      (case snd (poll_loop task0 0 (poll_replies client)) of
        Raised e \<Rightarrow> Raise e
      | GiveUp t \<Rightarrow> Return None
      | Stalled t k \<Rightarrow> Stall
      | Exit final \<Rightarrow> snd (fetch_result validate fpath final (result_reply client)))"
  by (simp add: convert_document_submitted [OF assms] split: loop_exit.splits)

lemma request_fault_None:
  "request_fault keys r = None \<Longrightarrow> \<exists>s b. r = Reply s (Some b) \<and> 200 \<le> s \<and> s < 300"
  by (cases r; cases "reply_body r") (auto split: if_splits)

lemma fault_raises:
  assumes "file_bytes client = Some bytes" and "fault client e"
  shows "snd (convert_document validate client fpath options) = Raise e"
  using assms(2)
proof (cases rule: fault.cases)
  case at_submit
  show ?thesis
  proof (cases "submit_reply client")
    case NoReply
    with at_submit assms(1) show ?thesis
      by (simp add: convert_document_def)
  next
    case (Reply s b)
    show ?thesis
    proof (cases "200 \<le> s \<and> s < 300")
      case False
      with Reply at_submit assms(1) show ?thesis
        by (auto simp: convert_document_def raise_for_status_def)
    next
      case True
      show ?thesis
      proof (cases b)
        case None
        with True Reply at_submit assms(1) show ?thesis
          by (simp add: convert_document_def raise_for_status_def)
      next
        case (Some task)
        with True Reply at_submit have "body_fault [''task_status'', ''task_id''] (Some task) = Some e"
          by simp
        from bad_task_run [OF this] True Reply Some assms(1) show ?thesis
          by (simp add: convert_document_outcome)
      qed
    qed
  qed
next
  case (at_poll s task0 pre r rest task k)
  from request_fault_None [OF at_poll(2)] at_poll(1) have ok: "200 \<le> s" "s < 300"
    by simp_all
  from poll_loop_Stalled [OF at_poll(4)] obtain tid
    where task: "in_progress task" "getitem task ''task_id'' = Inr tid"
    by blast
  have loop: "poll_loop task0 0 (poll_replies client) =
      emit (fst (poll_loop task0 0 pre)) (poll_loop task k (r # rest))"
    unfolding at_poll(3) by (rule poll_loop_append [OF at_poll(4)])
  have out: "snd (convert_document validate client fpath options) =
      (case snd (poll_loop task k (r # rest)) of
        Raised e \<Rightarrow> Raise e
      | GiveUp t \<Rightarrow> Return None
      | Stalled t k \<Rightarrow> Stall
      | Exit final \<Rightarrow> snd (fetch_result validate fpath final (result_reply client)))"
    by (simp add: convert_document_outcome [OF assms(1) at_poll(1) ok] loop)
  show ?thesis
  proof (cases r)
    case NoReply
    with at_poll(5) task show ?thesis
      by (simp add: out poll_loop_NoReply)
  next
    case (Reply s' b)
    with at_poll(5) have low: "s' \<le> retry_status_code"
      and b: "body_fault [''task_status'', ''task_id''] b = Some e"
      by (simp_all split: if_splits)
    show ?thesis
    proof (cases b)
      case None
      with b Reply low task show ?thesis
        by (simp add: out poll_loop_unparsable)
    next
      case (Some t)
      with b have "body_fault [''task_status'', ''task_id''] (Some t) = Some e"
        by simp
      from bad_task_run [OF this, where k = k and replies = rest and validate = validate
          and fpath = fpath and result_resp = "result_reply client"]
        Reply Some low task show ?thesis
        by (simp add: out poll_loop_refresh)
    qed
  qed
next
  case (at_result s task0 final tid)
  from request_fault_None [OF at_result(2)] at_result(1) have ok: "200 \<le> s" "s < 300"
    by simp_all
  have "snd (check_result validate fpath (result_reply client)) = Raise e"
  proof (cases "result_reply client")
    case NoReply
    with at_result(5) show ?thesis
      by (simp add: check_result_def)
  next
    case (Reply rc b)
    show ?thesis
    proof (cases "200 \<le> rc \<and> rc < 300")
      case False
      with Reply at_result(5) show ?thesis
        by (auto simp: check_result_def raise_for_status_def)
    next
      case True
      with Reply at_result(5) have b: "body_fault [''document''] b = Some e"
        by simp
      show ?thesis
      proof (cases b)
        case None
        with b True Reply show ?thesis
          by (simp add: check_result_def raise_for_status_def)
      next
        case (Some result)
        with b have "snd (extract_document validate fpath result) = Raise e"
          by (cases result) (auto simp: extract_document_def split: option.splits if_splits)
        with Some True Reply show ?thesis
          by (simp add: check_result_def raise_for_status_def)
      qed
    qed
  qed
  then show ?thesis
    by (simp add: convert_document_fetched [OF assms(1) at_result(1) ok at_result(3,4)])
qed

section \<open>The retry budget\<close>

text \<open>
  C4. Let the submission succeed, and let the poll replies be \<open>pre @ errs @ rest\<close>, where
  the loop is still polling after \<open>pre\<close>, with the task \<open>task\<close> and \<open>k\<close> failures
  counted, and \<open>errs\<close> are \<open>MAX_500_RETRIES + 1\<close> replies in a row with a status code
  above the threshold. Then the routine returns \<open>None\<close>. The loop leaves through the
  \<^verbatim>\<open>return None\<close> of line 121 with the task it had before the errors: none of them
  changed the recorded status. The log line is the last event of the call: after it there
  is no poll and no result fetch, and \<open>rest\<close> is never asked for. Of the errors,
  \<open>MAX_500_RETRIES + 1 - k\<close> are polled, which is all of them when the counter was at 0.
\<close>

theorem retry_budget_exhausted:
  assumes "file_bytes client = Some bytes"
    and "submit_reply client = Reply sc (Some task0)" and "200 \<le> sc" and "sc < 300"
    and "poll_replies client = pre @ errs @ rest"
    and "snd (poll_loop task0 0 pre) = Stalled task k"
    and "getitem task ''task_id'' = Inr tid"
    and "length errs = MAX_500_RETRIES + 1"
    and "\<forall>r\<in>set errs. qualifying r"
  shows "snd (poll_loop task0 0 (poll_replies client)) = GiveUp task \<and>
    convert_document validate client fpath options =
      (Request (PostConvert options fpath bytes) # fst (poll_loop task0 0 pre) @
         concat (replicate (Suc MAX_500_RETRIES - k) [Sleep, Request (GetPoll tid)]) @
         [Log (TooManyFailures (reply_status (errs ! (MAX_500_RETRIES - k))))],
       Return None)"
proof -
  from poll_loop_Stalled [OF assms(6)] have task: "in_progress task" and k: "k \<le> MAX_500_RETRIES"
    by simp_all
  from assms(8) have "MAX_500_RETRIES - k < length errs"
    by simp
  from poll_loop_errors [OF task assms(7) k assms(9) this]
  have errs: "poll_loop task k (errs @ rest) =
     (concat (replicate (Suc MAX_500_RETRIES - k) [Sleep, Request (GetPoll tid)]) @
        [Log (TooManyFailures (reply_status (errs ! (MAX_500_RETRIES - k))))],
      GiveUp task)" .
  have loop: "poll_loop task0 0 (poll_replies client) =
     emit (fst (poll_loop task0 0 pre)) (poll_loop task k (errs @ rest))"
    unfolding assms(5) by (rule poll_loop_append [OF assms(6)])
  show ?thesis
    by (simp add: convert_document_submitted [OF assms(1-4)] loop errs)
qed

theorem retry_budget_exhausted_witness:
  "snd (poll_loop (task_body ''pending'') 0 [busy, bad_gateway]) = Stalled (task_body ''running'') 1 \<and>
   length (replicate 6 bad_gateway) = MAX_500_RETRIES + 1 \<and>
   qualifying bad_gateway \<and>
   convert_document accept
     (server ''pending'' ([busy, bad_gateway] @ replicate 6 bad_gateway @ [finished ''success''])
        (Reply 200 (Some good_result)))
     ''a.pdf'' JNull =
     ([Request (PostConvert JNull ''a.pdf'' ''PDF''),
       Sleep, Request (GetPoll (JStr ''t1'')), Sleep, Request (GetPoll (JStr ''t1'')),
       Sleep, Request (GetPoll (JStr ''t1'')), Sleep, Request (GetPoll (JStr ''t1'')),
       Sleep, Request (GetPoll (JStr ''t1'')), Sleep, Request (GetPoll (JStr ''t1'')),
       Sleep, Request (GetPoll (JStr ''t1'')), Log (TooManyFailures 502)],
      Return None)"
proof -
  have stalled: "snd (poll_loop (task_body ''pending'') 0 [busy, bad_gateway]) =
      Stalled (task_body ''running'') 1"
    by (simp add: poll_loop.simps task_body_def busy_def bad_gateway_def retry_status_code_def
        MAX_500_RETRIES_def)
  have trace: "fst (poll_loop (task_body ''pending'') 0 [busy, bad_gateway]) =
      [Sleep, Request (GetPoll (JStr ''t1'')), Sleep, Request (GetPoll (JStr ''t1''))]"
    by (simp add: poll_loop.simps task_body_def busy_def bad_gateway_def retry_status_code_def
        MAX_500_RETRIES_def)
  have errs: "\<forall>r\<in>set (replicate 6 bad_gateway). qualifying r"
    by (simp add: bad_gateway_def retry_status_code_def)
  have len: "length (replicate 6 bad_gateway) = MAX_500_RETRIES + 1"
    by (simp add: MAX_500_RETRIES_def)
  have tid: "getitem (task_body ''running'') ''task_id'' = Inr (JStr ''t1'')"
    by (simp add: task_body_def)
  have code: "reply_status bad_gateway = 502"
    by (simp add: bad_gateway_def)
  from retry_budget_exhausted [where client = "server ''pending''
        ([busy, bad_gateway] @ replicate 6 bad_gateway @ [finished ''success''])
        (Reply 200 (Some good_result))" and bytes = "''PDF''" and sc = 200
      and ?task0.0 = "task_body ''pending''" and pre = "[busy, bad_gateway]"
      and errs = "replicate 6 bad_gateway" and rest = "[finished ''success'']"
      and task = "task_body ''running''" and k = 1 and tid = "JStr ''t1''"
      and validate = accept and fpath = "''a.pdf''" and options = JNull,
      OF _ _ _ _ _ stalled tid len errs]
  show ?thesis
    using stalled len errs
    by (simp add: server_def trace code MAX_500_RETRIES_def numeral_eq_Suc)
qed

text \<open>
  C3, as the code has it. The counter \<^verbatim>\<open>http_failures\<close> is never reset, so what bounds
  the tolerance is the total number of replies above the threshold, not the length of a
  run of them. Let the submission succeed with a task in progress, and let the poll replies
  be \<open>pre\<close>, then a reply with a status code not above the threshold whose body has a
  terminal status, then anything. If every reply of \<open>pre\<close> either is above the threshold
  or keeps the loop polling, and at most \<open>MAX_500_RETRIES\<close> of them are above the
  threshold, then the loop leaves through its condition with that terminal task, and the
  routine ends as the result fetch for that task ends.
\<close>

theorem tolerated_errors_reach_terminal:
  assumes "file_bytes client = Some bytes"
    and "submit_reply client = Reply sc (Some task0)" and "200 \<le> sc" and "sc < 300"
    and "in_progress task0" and "\<not> isl (getitem task0 ''task_id'')"
    and "poll_replies client = pre @ Reply s (Some final) # rest"
    and "\<forall>r\<in>set pre. qualifying r \<or> keeps_polling r"
    and "length (filter qualifying pre) \<le> MAX_500_RETRIES"
    and "s \<le> retry_status_code" and "terminal final"
  shows "snd (poll_loop task0 0 (poll_replies client)) = Exit final \<and>
    snd (convert_document validate client fpath options) =
      snd (fetch_result validate fpath final (result_reply client))"
proof -
  from poll_loop_tolerated [OF assms(5,6,8), of 0] assms(9)
  obtain task where pre: "snd (poll_loop task0 0 pre) = Stalled task (length (filter qualifying pre))"
    by auto
  from poll_loop_Stalled [OF pre] obtain tid
    where task: "in_progress task" "getitem task ''task_id'' = Inr tid"
    by blast
  have "poll_loop task0 0 (poll_replies client) =
      emit (fst (poll_loop task0 0 pre))
        (poll_loop task (length (filter qualifying pre)) (Reply s (Some final) # rest))"
    unfolding assms(7) by (rule poll_loop_append [OF pre])
  with task assms(10,11) have loop: "snd (poll_loop task0 0 (poll_replies client)) = Exit final"
    by (simp add: poll_loop_refresh poll_loop_terminal)
  then show ?thesis
    by (simp add: convert_document_submitted [OF assms(1-4)])
qed

theorem tolerated_errors_reach_terminal_witness:
  "in_progress (task_body ''pending'') \<and>
   length (filter qualifying [bad_gateway, busy, bad_gateway, busy, bad_gateway]) \<le> MAX_500_RETRIES \<and>
   terminal (task_body ''success'') \<and>
   snd (poll_loop (task_body ''pending'') 0
     ([bad_gateway, busy, bad_gateway, busy, bad_gateway] @ finished ''success'' # [busy])) =
     Exit (task_body ''success'') \<and>
   snd (convert_document accept
     (server ''pending'' ([bad_gateway, busy, bad_gateway, busy, bad_gateway] @ finished ''success'' # [busy])
        (Reply 200 (Some good_result))) ''a.pdf'' JNull) =
     Return (Some \<lparr>doc = JObj [(''name'', JStr ''a'')], file_path = ''a.pdf''\<rparr>)"
proof -
  have a: "in_progress (task_body ''pending'')" "\<not> isl (getitem (task_body ''pending'') ''task_id'')"
    "terminal (task_body ''success'')"
    by (simp_all add: in_progress_def terminal_def task_body_def)
  have b: "\<forall>r\<in>set [bad_gateway, busy, bad_gateway, busy, bad_gateway]. qualifying r \<or> keeps_polling r"
    by (simp add: bad_gateway_def busy_def retry_status_code_def in_progress_def task_body_def)
  have c: "length (filter qualifying [bad_gateway, busy, bad_gateway, busy, bad_gateway]) \<le> MAX_500_RETRIES"
    by (simp add: bad_gateway_def busy_def retry_status_code_def MAX_500_RETRIES_def)
  have d: "snd (fetch_result accept ''a.pdf'' (task_body ''success'') (Reply 200 (Some good_result))) =
      Return (Some \<lparr>doc = JObj [(''name'', JStr ''a'')], file_path = ''a.pdf''\<rparr>)"
    by (simp add: fetch_result_def check_result_def extract_document_def raise_for_status_def
        task_body_def good_result_def document_body_def accept_def)
  from tolerated_errors_reach_terminal [where client = "server ''pending''
        ([bad_gateway, busy, bad_gateway, busy, bad_gateway] @ finished ''success'' # [busy])
        (Reply 200 (Some good_result))" and bytes = "''PDF''" and sc = 200
      and ?task0.0 = "task_body ''pending''"
      and pre = "[bad_gateway, busy, bad_gateway, busy, bad_gateway]" and s = 200
      and final = "task_body ''success''" and rest = "[busy]"
      and validate = accept and fpath = "''a.pdf''" and options = JNull,
      OF _ _ _ _ a(1,2) _ b c _ a(3)]
  show ?thesis
    using a c d by (simp add: server_def finished_def retry_status_code_def)
qed

text \<open>
  C3 as written fails. In \<open>flaky_polls\<close> every reply above the threshold is followed by a
  normal reply, so no run of errors is longer than one, and the last normal reply reports
  success. The sixth error still exhausts the budget: the loop gives up and the routine
  returns \<open>None\<close>.
\<close>

theorem alternating_errors_counterexample:
  "longest_run 0 flaky_polls \<le> MAX_500_RETRIES \<and>
   last flaky_polls = finished ''success'' \<and> terminal (task_body ''success'') \<and>
   snd (poll_loop (task_body ''pending'') 0 flaky_polls) = GiveUp (task_body ''running'') \<and>
   snd (convert_document accept (server ''pending'' flaky_polls (Reply 200 (Some good_result)))
     ''a.pdf'' JNull) = Return None"
  by (simp add: flaky_polls_def bad_gateway_def busy_def finished_def task_body_def
      retry_status_code_def MAX_500_RETRIES_def terminal_def poll_loop.simps
      convert_document_def server_def raise_for_status_def)

section \<open>After the loop\<close>

text \<open>
  C2, as the code has it. When the loop ends with a terminal status, \<open>failure\<close> or
  \<open>success\<close> alike, the next event is the result fetch for the task, and the routine ends
  as \<open>check_result\<close> says for the reply to that fetch: the status plays no part.
\<close>

theorem terminal_status_fetches_result:
  assumes "file_bytes client = Some bytes"
    and "submit_reply client = Reply sc (Some task0)" and "200 \<le> sc" and "sc < 300"
    and "snd (poll_loop task0 0 (poll_replies client)) = Exit final"
    and "getitem final ''task_status'' = Inr (JStr st)"
    and "st = ''failure'' \<or> st = ''success''"
    and "getitem final ''task_id'' = Inr tid"
  shows "convert_document validate client fpath options =
      emit (Request (PostConvert options fpath bytes) # fst (poll_loop task0 0 (poll_replies client)) @
          [Request (GetResult tid)])
        (check_result validate fpath (result_reply client))"
  by (simp add: convert_document_submitted [OF assms(1-4)] assms(5,8) fetch_result_def)

theorem terminal_status_fetches_result_witness:
  "snd (poll_loop (task_body ''pending'') 0 [busy, finished ''failure'']) = Exit (task_body ''failure'') \<and>
   getitem (task_body ''failure'') ''task_status'' = Inr (JStr ''failure'') \<and>
   convert_document accept (server ''pending'' [busy, finished ''failure''] (Reply 404 None))
     ''a.pdf'' JNull =
     ([Request (PostConvert JNull ''a.pdf'' ''PDF''), Sleep, Request (GetPoll (JStr ''t1'')),
       Sleep, Request (GetPoll (JStr ''t1'')), Request (GetResult (JStr ''t1''))],
      Raise (HTTPStatusError 404))"
proof -
  have loop: "poll_loop (task_body ''pending'') 0 [busy, finished ''failure''] =
      ([Sleep, Request (GetPoll (JStr ''t1'')), Sleep, Request (GetPoll (JStr ''t1''))],
       Exit (task_body ''failure''))"
    by (simp add: poll_loop.simps task_body_def busy_def finished_def retry_status_code_def)
  have task: "getitem (task_body ''failure'') ''task_status'' = Inr (JStr ''failure'')"
    "getitem (task_body ''failure'') ''task_id'' = Inr (JStr ''t1'')"
    by (simp_all add: task_body_def)
  from terminal_status_fetches_result [where client = "server ''pending''
        [busy, finished ''failure''] (Reply 404 None)" and bytes = "''PDF''" and sc = 200
      and ?task0.0 = "task_body ''pending''" and final = "task_body ''failure''"
      and st = "''failure''" and tid = "JStr ''t1''"
      and validate = accept and fpath = "''a.pdf''" and options = JNull,
      OF _ _ _ _ _ task(1) _ task(2)]
  show ?thesis
    using task(1) by (simp add: server_def loop check_result_def raise_for_status_def)
qed

text \<open>
  C2 as written fails. The job below ends its loop with the status \<open>failure\<close>; the result
  is fetched all the same, and as the server answers with a document, the routine returns
  it.
\<close>

theorem failure_status_counterexample:
  "snd (poll_loop (task_body ''pending'') 0 [finished ''failure'']) = Exit (task_body ''failure'') \<and>
   getitem (task_body ''failure'') ''task_status'' = Inr (JStr ''failure'') \<and>
   convert_document accept (server ''pending'' [finished ''failure''] (Reply 200 (Some good_result)))
     ''a.pdf'' JNull =
     ([Request (PostConvert JNull ''a.pdf'' ''PDF''), Sleep, Request (GetPoll (JStr ''t1'')),
       Request (GetResult (JStr ''t1''))],
      Return (Some \<lparr>doc = JObj [(''name'', JStr ''a'')], file_path = ''a.pdf''\<rparr>))"
  by (simp add: poll_loop.simps task_body_def finished_def retry_status_code_def
      convert_document_def server_def raise_for_status_def fetch_result_def check_result_def
      extract_document_def good_result_def document_body_def accept_def)

section \<open>Entering the loop\<close>

text \<open>
  C8, as the code has it. The loop tests its condition before the first poll. After a
  successful submission whose task is in progress and carries its identifier, the first
  events after the submission are a sleep and a poll for that identifier (given that the
  transport reacts to the poll at all). After a successful submission whose task already
  has a terminal status, the routine goes straight to the result fetch: the call has no
  sleep and no poll.
\<close>

theorem polling_entered_when_in_progress:
  assumes "file_bytes client = Some bytes"
    and "submit_reply client = Reply sc (Some task)" and "200 \<le> sc" and "sc < 300"
  shows "(in_progress task \<and> getitem task ''task_id'' = Inr tid \<and> poll_replies client \<noteq> [] \<longrightarrow>
      (\<exists>tr. fst (convert_document validate client fpath options) =
         Request (PostConvert options fpath bytes) # Sleep # Request (GetPoll tid) # tr)) \<and>
    (terminal task \<longrightarrow>
      convert_document validate client fpath options =
        emit [Request (PostConvert options fpath bytes)]
          (fetch_result validate fpath task (result_reply client)) \<and>
      Sleep \<notin> set (fst (convert_document validate client fpath options)) \<and>
      (\<forall>t. Request (GetPoll t) \<notin> set (fst (convert_document validate client fpath options))))"
proof (intro conjI impI)
  assume a: "in_progress task \<and> getitem task ''task_id'' = Inr tid \<and> poll_replies client \<noteq> []"
  then obtain r rs where polls: "poll_replies client = r # rs"
    by (cases "poll_replies client") auto
  from a have "\<exists>tr. fst (poll_loop task 0 (r # rs)) = Sleep # Request (GetPoll tid) # tr"
    by (subst poll_loop.simps)
      (auto simp: in_progress_def split: sum.splits reply.splits option.splits)
  then show "\<exists>tr. fst (convert_document validate client fpath options) =
         Request (PostConvert options fpath bytes) # Sleep # Request (GetPoll tid) # tr"
    by (auto simp: convert_document_submitted [OF assms(1-4)] polls)
next
  assume t: "terminal task"
  then show eq: "convert_document validate client fpath options =
        emit [Request (PostConvert options fpath bytes)]
          (fetch_result validate fpath task (result_reply client))"
    by (simp add: convert_document_submitted [OF assms(1-4)] poll_loop_terminal)
  from fetch_result_events [of validate fpath task "result_reply client"]
  show "Sleep \<notin> set (fst (convert_document validate client fpath options))"
    unfolding eq by auto
  from fetch_result_events [of validate fpath task "result_reply client"]
  show "\<forall>t. Request (GetPoll t) \<notin> set (fst (convert_document validate client fpath options))"
    unfolding eq by auto
qed

theorem polling_entered_when_in_progress_witness:
  "in_progress (task_body ''pending'') \<and> terminal (task_body ''failure'') \<and>
   fst (convert_document accept (server ''pending'' [NoReply] NoReply) ''a.pdf'' JNull) =
     [Request (PostConvert JNull ''a.pdf'' ''PDF''), Sleep, Request (GetPoll (JStr ''t1''))] \<and>
   convert_document accept (server ''failure'' [busy] NoReply) ''a.pdf'' JNull =
     ([Request (PostConvert JNull ''a.pdf'' ''PDF''), Request (GetResult (JStr ''t1''))],
      Raise RequestError)"
proof -
  have a: "in_progress (task_body ''pending'')" "terminal (task_body ''failure'')"
    "getitem (task_body ''pending'') ''task_id'' = Inr (JStr ''t1'')"
    by (simp_all add: in_progress_def terminal_def task_body_def)
  from polling_entered_when_in_progress [where client = "server ''pending'' [NoReply] NoReply"
      and bytes = "''PDF''" and sc = 200 and task = "task_body ''pending''"
      and tid = "JStr ''t1''" and validate = accept and fpath = "''a.pdf''" and options = JNull]
  have "\<exists>tr. fst (convert_document accept (server ''pending'' [NoReply] NoReply) ''a.pdf'' JNull) =
      Request (PostConvert JNull ''a.pdf'' ''PDF'') # Sleep # Request (GetPoll (JStr ''t1'')) # tr"
    using a by (simp add: server_def)
  moreover have "length (fst (convert_document accept (server ''pending'' [NoReply] NoReply)
      ''a.pdf'' JNull)) = 3"
    by (simp add: convert_document_def server_def raise_for_status_def poll_loop.simps
        task_body_def)
  ultimately have first: "fst (convert_document accept (server ''pending'' [NoReply] NoReply)
      ''a.pdf'' JNull) =
     [Request (PostConvert JNull ''a.pdf'' ''PDF''), Sleep, Request (GetPoll (JStr ''t1''))]"
    by auto
  from polling_entered_when_in_progress [where client = "server ''failure'' [busy] NoReply"
      and bytes = "''PDF''" and sc = 200 and task = "task_body ''failure''"
      and validate = accept and fpath = "''a.pdf''" and options = JNull]
  have "convert_document accept (server ''failure'' [busy] NoReply) ''a.pdf'' JNull =
     ([Request (PostConvert JNull ''a.pdf'' ''PDF''), Request (GetResult (JStr ''t1''))],
      Raise RequestError)"
    using a by (simp add: server_def fetch_result_def check_result_def task_body_def)
  with first a show ?thesis
    by simp
qed

text \<open>
  C8 as written fails. The submission below is answered with the status \<open>success\<close>; the
  call consists of the submission and the result fetch, with no wait and no poll between
  them.
\<close>

theorem terminal_submission_counterexample:
  "convert_document accept (server ''success'' [busy] (Reply 200 (Some good_result))) ''a.pdf'' JNull =
     ([Request (PostConvert JNull ''a.pdf'' ''PDF''), Request (GetResult (JStr ''t1''))],
      Return (Some \<lparr>doc = JObj [(''name'', JStr ''a'')], file_path = ''a.pdf''\<rparr>))"
  by (simp add: poll_loop.simps task_body_def
      convert_document_def server_def raise_for_status_def fetch_result_def check_result_def
      extract_document_def good_result_def document_body_def accept_def)

section \<open>The slots of the batch\<close>

text \<open>
  The layout of the slots in general. Let the pool have workers, let every started pipeline
  complete, in whatever order, and let every pipeline return. Then the call builds exactly
  one slot per input and hands them to \<^verbatim>\<open>rollup_data\<close>: first an absent slot for each
  input without a path, then the outcomes of the inputs with a path in the order of the
  inputs. The slot at index \<open>i\<close> holds the outcome of input \<open>i\<close> for every \<open>i\<close> whenever
  no input without a path comes after an input with a path.
\<close>

lemma slots_in_submission_order:
  assumes "0 < max_concurrency self"
    and "\<forall>j<length (futures_of file_list). j \<in> set order"
    and "\<forall>input\<in>set (enumerate 0 file_list). \<exists>d. outcome self validate env input = Return d"
  shows "\<exists>slots.
    snd (processed_data self validate env order file_list) = Return slots \<and>
    snd (process_files self validate env order file_list) =
      Return (rollup_data file_list slots) \<and>
    length slots = length file_list \<and>
    map Return slots =
      map (outcome self validate env) (filter no_path (enumerate 0 file_list)) @
      map (outcome self validate env)
        (filter (\<lambda>input. \<not> no_path input) (enumerate 0 file_list)) \<and>
    (\<forall>xs ys. file_list = xs @ ys \<and> (\<forall>f\<in>set xs. path f = None) \<and> (\<forall>f\<in>set ys. path f \<noteq> None) \<longrightarrow>
       map Return slots = map (outcome self validate env) (enumerate 0 file_list))"
proof -
  let ?inputs = "enumerate 0 file_list"
  let ?m = "length (filter no_path ?inputs)"
  have runs: "map (\<lambda>fut. snd (pipeline self validate env fut)) (futures_of file_list) =
      map (outcome self validate env) (filter (\<lambda>input. \<not> no_path input) ?inputs)"
    by (simp add: futures_of_eq started_outcome)
  from assms(3) have "\<exists>ds. map (outcome self validate env)
      (filter (\<lambda>input. \<not> no_path input) ?inputs) = map Return ds"
    by (intro all_Return) simp
  then obtain ds where ds: "map (outcome self validate env)
      (filter (\<lambda>input. \<not> no_path input) ?inputs) = map Return ds"
    by blast
  have pd: "processed_data self validate env order file_list =
      ([], Return (replicate ?m None @ ds))"
    using assms(1,2) runs ds by (intro batch_returns) simp_all
  have len: "length (replicate ?m None @ ds) = length file_list"
  proof -
    from ds have "length ds = length (filter (\<lambda>input. \<not> no_path input) ?inputs)"
      by (metis length_map)
    then have "length (replicate ?m None @ ds) = length ?inputs"
      using sum_length_filter_compl [of no_path ?inputs] by simp
    then show ?thesis by simp
  qed
  have order: "map Return (replicate ?m None @ ds) =
      map (outcome self validate env) (filter no_path ?inputs) @
      map (outcome self validate env) (filter (\<lambda>input. \<not> no_path input) ?inputs)"
    using no_path_outcome [of ?inputs self validate env] ds by simp
  have aligned: "\<forall>xs ys. file_list = xs @ ys \<and> (\<forall>f\<in>set xs. path f = None) \<and>
      (\<forall>f\<in>set ys. path f \<noteq> None) \<longrightarrow>
      map Return (replicate ?m None @ ds) = map (outcome self validate env) ?inputs"
  proof (intro allI impI)
    fix xs ys
    assume "file_list = xs @ ys \<and> (\<forall>f\<in>set xs. path f = None) \<and> (\<forall>f\<in>set ys. path f \<noteq> None)"
    then have "filter no_path ?inputs @ filter (\<lambda>input. \<not> no_path input) ?inputs = ?inputs"
      using filter_no_path_split [of xs ys 0] by simp
    then have "map (outcome self validate env) ?inputs =
      map (outcome self validate env) (filter no_path ?inputs) @
      map (outcome self validate env) (filter (\<lambda>input. \<not> no_path input) ?inputs)"
      by (metis map_append)
    with order show "map Return (replicate ?m None @ ds) = map (outcome self validate env) ?inputs"
      by simp
  qed
  from pd len order aligned show ?thesis
    by (intro exI [of _ "replicate ?m None @ ds"]) (simp add: process_files_def)
qed


text \<open>
  C7. An input whose path is \<open>None\<close> is one of the inputs for which the first loop appends
  an absent slot, and the slots that loop leaves are exactly one absent slot for each such
  input. No future is created for it: no pipeline of the batch belongs to its index, and
  every submission request that a pipeline of the batch issues is for another input, one
  that has the path of the request.
\<close>

theorem no_pipeline_without_path:
  assumes "i < length file_list" and "path (file_list ! i) = None"
  shows "(i, file_list ! i) \<in> set (filter no_path (enumerate 0 file_list)) \<and>
    fst (submit_loop (enumerate 0 file_list) ([], [])) =
      replicate (length (filter no_path (enumerate 0 file_list))) None \<and>
    i \<notin> fst ` set (futures_of file_list) \<and>
    i \<notin> fst ` set (pipeline_traces self validate env file_list) \<and>
    (\<forall>i' tr opts p b.
       (i', tr) \<in> set (pipeline_traces self validate env file_list) \<and>
       Request (PostConvert opts p b) \<in> set tr \<longrightarrow>
       i' \<noteq> i \<and> i' < length file_list \<and> path (file_list ! i') = Some p)"
proof -
  have started: "\<And>i' p. (i', p) \<in> set (futures_of file_list) \<longleftrightarrow>
      i' < length file_list \<and> path (file_list ! i') = Some p"
    by (auto simp: futures_of_eq in_started_iff in_set_enumerate_eq)
  from assms have a: "(i, file_list ! i) \<in> set (filter no_path (enumerate 0 file_list))"
    by (simp add: no_path_def in_set_enumerate_eq)
  have b: "fst (submit_loop (enumerate 0 file_list) ([], [])) =
      replicate (length (filter no_path (enumerate 0 file_list))) None"
    by (simp add: submit_loop_eq)
  from assms(2) have c: "i \<notin> fst ` set (futures_of file_list)"
    by (auto simp: started)
  then have d: "i \<notin> fst ` set (pipeline_traces self validate env file_list)"
    by (force simp: pipeline_traces_def)
  have e: "\<forall>i' tr opts p b.
       (i', tr) \<in> set (pipeline_traces self validate env file_list) \<and>
       Request (PostConvert opts p b) \<in> set tr \<longrightarrow>
       i' \<noteq> i \<and> i' < length file_list \<and> path (file_list ! i') = Some p"
  proof (intro allI impI)
    fix i' tr opts p b
    assume h: "(i', tr) \<in> set (pipeline_traces self validate env file_list) \<and>
       Request (PostConvert opts p b) \<in> set tr"
    then obtain p' where p': "(i', p') \<in> set (futures_of file_list)"
      "tr = fst (pipeline self validate env (i', p'))"
      by (auto simp: pipeline_traces_def)
    with h have "p = p'"
      using convert_document_submission [of opts p b validate "env i'" p' "docling_options self"]
      by (simp add: pipeline_def)
    with p' assms(2) show "i' \<noteq> i \<and> i' < length file_list \<and> path (file_list ! i') = Some p"
      by (auto simp: started)
  qed
  from a b c d e show ?thesis
    by blast
qed

theorem no_pipeline_without_path_witness:
  "path ([with_path ''a.pdf'', without_path, with_path ''b.pdf''] ! 1) = None \<and>
   futures_of [with_path ''a.pdf'', without_path, with_path ''b.pdf''] =
     [(0, ''a.pdf''), (2, ''b.pdf'')] \<and>
   1 \<notin> fst ` set (pipeline_traces two_workers accept (same_server ready)
     [with_path ''a.pdf'', without_path, with_path ''b.pdf'']) \<and>
   fst (submit_loop (enumerate 0 [with_path ''a.pdf'', without_path, with_path ''b.pdf''])
     ([] :: unit option list, [])) = [None]"
proof -
  let ?files = "[with_path ''a.pdf'', without_path, with_path ''b.pdf'']"
  have len: "1 < length ?files"
    by simp
  have none: "path (?files ! 1) = None"
    by (simp add: without_path_def)
  have futures: "futures_of ?files = [(0, ''a.pdf''), (2, ''b.pdf'')]"
    by (simp add: futures_of_def without_path_def with_path_def)
  have slots: "fst (submit_loop (enumerate 0 ?files) ([] :: unit option list, [])) = [None]"
    by (simp add: without_path_def with_path_def)
  from no_pipeline_without_path [OF len none, of two_workers accept "same_server ready"]
  have "1 \<notin> fst ` set (pipeline_traces two_workers accept (same_server ready) ?files)"
    by blast
  with none futures slots show ?thesis
    by blast
qed

section \<open>The result payload\<close>

text \<open>
  C6. Let pipeline \<open>j\<close> of a batch be the one of input \<open>i\<close>. Let its job reach the
  terminal status \<open>success\<close>, and let the result fetch be answered with a 2xx response
  whose body has a \<open>document\<close> object in which \<open>json_content\<close> is absent or null. Then
  the pipeline logs that no document was found and returns \<open>None\<close>; it does not raise. In
  the batch, if the pool has workers and the other pipelines complete and return, the call
  returns its slots: the slot of this pipeline is absent, and every other pipeline has its
  own outcome in its slot.
\<close>

theorem missing_payload_is_skipped:
  assumes "j < length (futures_of file_list)" and "futures_of file_list ! j = (i, p)"
    and "file_bytes (env i) = Some bytes"
    and "submit_reply (env i) = Reply sc (Some task0)" and "200 \<le> sc" and "sc < 300"
    and "snd (poll_loop task0 0 (poll_replies (env i))) = Exit final"
    and "getitem final ''task_status'' = Inr (JStr ''success'')"
    and "getitem final ''task_id'' = Inr tid"
    and "result_reply (env i) = Reply rc (Some (JObj kvs))" and "200 \<le> rc" and "rc < 300"
    and "map_of kvs ''document'' = Some (JObj dkvs)"
    and "map_of dkvs ''json_content'' = None \<or> map_of dkvs ''json_content'' = Some JNull"
  shows "pipeline self validate env (i, p) =
      (Request (PostConvert (docling_options self) p bytes) #
         fst (poll_loop task0 0 (poll_replies (env i))) @
         [Request (GetResult tid), Log NoJsonDocument],
       Return None) \<and>
    (0 < max_concurrency self \<and>
     (\<forall>j'<length (futures_of file_list). j' \<in> set order) \<and>
     (\<forall>j'<length (futures_of file_list). j' \<noteq> j \<longrightarrow>
        (\<exists>d. snd (pipeline self validate env (futures_of file_list ! j')) = Return d)) \<longrightarrow>
     (\<exists>ds. processed_data self validate env order file_list =
          ([], Return (replicate (length (filter no_path (enumerate 0 file_list))) None @ ds)) \<and>
        length ds = length (futures_of file_list) \<and> ds ! j = None \<and>
        (\<forall>j'<length (futures_of file_list).
           snd (pipeline self validate env (futures_of file_list ! j')) = Return (ds ! j'))))"
proof -
  from assms(13,14) have "extract_document validate p (JObj kvs) =
      ([Log NoJsonDocument], Return None)"
    by (auto simp: extract_document_def)
  with assms(10-12) have "check_result validate p (result_reply (env i)) =
      ([Log NoJsonDocument], Return None)"
    by (simp add: check_result_def raise_for_status_def)
  with convert_document_fetched [OF assms(3-7,9), of validate p "docling_options self"]
  have run: "pipeline self validate env (i, p) =
      (Request (PostConvert (docling_options self) p bytes) #
         fst (poll_loop task0 0 (poll_replies (env i))) @
         [Request (GetResult tid), Log NoJsonDocument],
       Return None)"
    by (simp add: pipeline_def)
  then have "snd (pipeline self validate env (futures_of file_list ! j)) = Return None"
    by (simp add: assms(2))
  then have "\<exists>ds. processed_data self validate env order file_list =
          ([], Return (replicate (length (filter no_path (enumerate 0 file_list))) None @ ds)) \<and>
        length ds = length (futures_of file_list) \<and> ds ! j = None \<and>
        (\<forall>j'<length (futures_of file_list).
           snd (pipeline self validate env (futures_of file_list ! j')) = Return (ds ! j'))"
    if "0 < max_concurrency self" "\<forall>j'<length (futures_of file_list). j' \<in> set order"
      "\<forall>j'<length (futures_of file_list). j' \<noteq> j \<longrightarrow>
        (\<exists>d. snd (pipeline self validate env (futures_of file_list ! j')) = Return d)"
    using that assms(1) by (intro batch_returns_but_one) simp_all
  with run show ?thesis
    by blast
qed

theorem missing_payload_is_skipped_witness:
  "snd (poll_loop (task_body ''success'') 0 (poll_replies (second_is no_payload 1))) =
     Exit (task_body ''success'') \<and>
   result_reply (second_is no_payload 1) =
     Reply 200 (Some (JObj [(''document'', JObj [(''json_content'', JNull)])])) \<and>
   pipeline two_workers accept (second_is no_payload) (1, ''b.pdf'') =
     ([Request (PostConvert (docling_options two_workers) ''b.pdf'' ''PDF''),
       Request (GetResult (JStr ''t1'')), Log NoJsonDocument],
      Return None) \<and>
   processed_data two_workers accept (second_is no_payload) [1, 0]
     [with_path ''a.pdf'', with_path ''b.pdf''] =
     ([], Return [Some \<lparr>doc = JObj [(''name'', JStr ''a'')], file_path = ''a.pdf''\<rparr>, None])"
proof -
  let ?files = "[with_path ''a.pdf'', with_path ''b.pdf'']"
  let ?env = "second_is no_payload"
  have client: "?env 1 = no_payload"
    by (simp add: second_is_def)
  have loop: "snd (poll_loop (task_body ''success'') 0 (poll_replies (?env 1))) =
      Exit (task_body ''success'')"
    unfolding client by (simp add: no_payload_def server_def ready_loop)
  have reply: "result_reply (?env 1) =
      Reply 200 (Some (JObj [(''document'', JObj [(''json_content'', JNull)])]))"
    unfolding client by (simp add: no_payload_def server_def document_body_def)
  have others: "\<forall>j'<length (futures_of ?files). j' \<noteq> 1 \<longrightarrow>
      (\<exists>d. snd (pipeline two_workers accept ?env (futures_of ?files ! j')) = Return d)"
    by (simp add: two_files_futures less_Suc_eq ready_pipeline)
  have order: "\<forall>j'<length (futures_of ?files). j' \<in> set [1, 0]"
    by (auto simp: two_files_futures less_Suc_eq)
  have fut: "1 < length (futures_of ?files)" "futures_of ?files ! 1 = (1, ''b.pdf'')"
    by (simp_all add: two_files_futures)
  have sub: "file_bytes (?env 1) = Some ''PDF''"
    "submit_reply (?env 1) = Reply 200 (Some (task_body ''success''))"
    unfolding client by (simp_all add: no_payload_def server_def)
  have codes: "(200::int) \<le> 200" "(200::int) < 300"
    by simp_all
  have task: "getitem (task_body ''success'') ''task_status'' = Inr (JStr ''success'')"
    "getitem (task_body ''success'') ''task_id'' = Inr (JStr ''t1'')"
    by (simp_all add: task_body_def)
  have doc: "map_of [(''document'', JObj [(''json_content'', JNull)])] ''document'' =
      Some (JObj [(''json_content'', JNull)])"
    "map_of [(''json_content'', JNull)] ''json_content'' = None \<or>
     map_of [(''json_content'', JNull)] ''json_content'' = Some JNull"
    by simp_all
  have workers: "0 < max_concurrency two_workers"
    by (simp add: two_workers_def)
  note inst = missing_payload_is_skipped [where env = ?env and i = 1 and self = two_workers
      and validate = accept and order = "[1, 0]",
      OF fut sub codes loop task reply codes doc]
  from inst have run: "pipeline two_workers accept ?env (1, ''b.pdf'') =
      (Request (PostConvert (docling_options two_workers) ''b.pdf'' ''PDF'') #
         fst (poll_loop (task_body ''success'') 0 (poll_replies (?env 1))) @
         [Request (GetResult (JStr ''t1'')), Log NoJsonDocument],
       Return None)"
    by (rule conjunct1)
  from inst workers order others
  have batch: "\<exists>ds. processed_data two_workers accept ?env [1, 0] ?files =
          ([], Return (replicate (length (filter no_path (enumerate 0 ?files))) None @ ds)) \<and>
        length ds = length (futures_of ?files) \<and> ds ! 1 = None \<and>
        (\<forall>j'<length (futures_of ?files).
           snd (pipeline two_workers accept ?env (futures_of ?files ! j')) = Return (ds ! j'))"
    by blast
  from batch obtain ds where ds:
    "processed_data two_workers accept ?env [1, 0] ?files =
       ([], Return (replicate (length (filter no_path (enumerate 0 ?files))) None @ ds))"
    "length ds = 2" "ds ! 1 = None"
    "snd (pipeline two_workers accept ?env (futures_of ?files ! 0)) = Return (ds ! 0)"
    by (auto simp: two_files_futures)
  from ds(4) have "ds ! 0 = Some \<lparr>doc = JObj [(''name'', JStr ''a'')], file_path = ''a.pdf''\<rparr>"
    by (simp add: two_files_futures ready_pipeline)
  with ds(2,3) have "ds = [Some \<lparr>doc = JObj [(''name'', JStr ''a'')], file_path = ''a.pdf''\<rparr>, None]"
    by (cases ds; cases "tl ds") auto
  with ds(1) have "processed_data two_workers accept ?env [1, 0] ?files =
     ([], Return [Some \<lparr>doc = JObj [(''name'', JStr ''a'')], file_path = ''a.pdf''\<rparr>, None])"
    by (simp add: no_path_def with_path_def)
  moreover have "fst (poll_loop (task_body ''success'') 0 (poll_replies (?env 1))) = []"
    unfolding client by (simp add: no_payload_def server_def ready_loop)
  ultimately show ?thesis
    using loop reply run by simp
qed

text \<open>
  C10, as the code has it. Let pipeline \<open>j\<close> of a batch be the one of input \<open>i\<close>. Let its
  loop end with a terminal task, and let the result fetch be answered with a 2xx response
  whose body is an object without the key \<open>document\<close>. Then the pipeline raises
  \<open>KeyError\<close> for that key right after the fetch, and the batch call never returns slots.
  When the pool has workers, every started pipeline completes, and the pipelines before it
  in the order of submission return, the call logs the error and raises that \<open>KeyError\<close>.
  In contrast, where the key \<open>document\<close> is present, the extraction ends with the log line
  about the missing document and \<open>None\<close> exactly when the document is an object in which
  \<open>json_content\<close> is absent or null, or an array or a string that does not contain
  \<open>json_content\<close>; and it returns \<open>None\<close> at all exactly in these cases and when the
  \<open>json_content\<close> of a document object fails validation.
\<close>

theorem missing_document_is_fatal:
  assumes "j < length (futures_of file_list)" and "futures_of file_list ! j = (i, p)"
    and "file_bytes (env i) = Some bytes"
    and "submit_reply (env i) = Reply sc (Some task0)" and "200 \<le> sc" and "sc < 300"
    and "snd (poll_loop task0 0 (poll_replies (env i))) = Exit final"
    and "getitem final ''task_id'' = Inr tid"
    and "result_reply (env i) = Reply rc (Some (JObj kvs))" and "200 \<le> rc" and "rc < 300"
    and "map_of kvs ''document'' = None"
  shows "pipeline self validate env (i, p) =
      (Request (PostConvert (docling_options self) p bytes) #
         fst (poll_loop task0 0 (poll_replies (env i))) @ [Request (GetResult tid)],
       Raise (KeyError ''document'')) \<and>
    (\<forall>out. snd (processed_data self validate env order file_list) \<noteq> Return out) \<and>
    (0 < max_concurrency self \<and>
     (\<forall>j'<length (futures_of file_list). j' \<in> set order \<and>
        snd (pipeline self validate env (futures_of file_list ! j')) \<noteq> Stall) \<and>
     (\<forall>j'<j. \<exists>d. snd (pipeline self validate env (futures_of file_list ! j')) = Return d) \<longrightarrow>
     processed_data self validate env order file_list =
       ([Log ErrorOccurred], Raise (KeyError ''document''))) \<and>
    (\<forall>kvs' document. map_of kvs' ''document'' = Some document \<longrightarrow>
       (extract_document validate p (JObj kvs') = ([Log NoJsonDocument], Return None)) =
       ((\<exists>dkvs. document = JObj dkvs \<and>
           (map_of dkvs ''json_content'' = None \<or> map_of dkvs ''json_content'' = Some JNull)) \<or>
        (\<exists>xs. document = JArr xs \<and> JStr ''json_content'' \<notin> set xs) \<or>
        (\<exists>s. document = JStr s \<and> \<not> sublist ''json_content'' s))) \<and>
    (\<forall>kvs' document. map_of kvs' ''document'' = Some document \<longrightarrow>
       (snd (extract_document validate p (JObj kvs')) = Return None) =
       ((\<exists>dkvs. document = JObj dkvs \<and>
           (map_of dkvs ''json_content'' = None \<or> map_of dkvs ''json_content'' = Some JNull \<or>
            (\<exists>content. map_of dkvs ''json_content'' = Some content \<and>
               validate content = None))) \<or>
        (\<exists>xs. document = JArr xs \<and> JStr ''json_content'' \<notin> set xs) \<or>
        (\<exists>s. document = JStr s \<and> \<not> sublist ''json_content'' s)))"
proof -
  from assms(12) have "extract_document validate p (JObj kvs) = ([], Raise (KeyError ''document''))"
    by (simp add: extract_document_def)
  with assms(9-11) have "check_result validate p (result_reply (env i)) =
      ([], Raise (KeyError ''document''))"
    by (simp add: check_result_def raise_for_status_def)
  with convert_document_fetched [OF assms(3-8), of validate p "docling_options self"]
  have run: "pipeline self validate env (i, p) =
      (Request (PostConvert (docling_options self) p bytes) #
         fst (poll_loop task0 0 (poll_replies (env i))) @ [Request (GetResult tid)],
       Raise (KeyError ''document''))"
    by (simp add: pipeline_def)
  then have raised: "snd (pipeline self validate env (futures_of file_list ! j)) =
      Raise (KeyError ''document'')"
    by (simp add: assms(2))
  then have never: "\<forall>out. snd (processed_data self validate env order file_list) \<noteq> Return out"
    using batch_never_returns [OF assms(1), of self validate env order] by simp
  have first: "processed_data self validate env order file_list =
       ([Log ErrorOccurred], Raise (KeyError ''document''))"
    if "0 < max_concurrency self \<and>
     (\<forall>j'<length (futures_of file_list). j' \<in> set order \<and>
        snd (pipeline self validate env (futures_of file_list ! j')) \<noteq> Stall) \<and>
     (\<forall>j'<j. \<exists>d. snd (pipeline self validate env (futures_of file_list ! j')) = Return d)"
    using batch_raises_first_log [OF _ assms(1) raised, of order] that by simp
  have only: "(extract_document validate p (JObj kvs') = ([Log NoJsonDocument], Return None)) =
       ((\<exists>dkvs. document = JObj dkvs \<and>
           (map_of dkvs ''json_content'' = None \<or> map_of dkvs ''json_content'' = Some JNull)) \<or>
        (\<exists>xs. document = JArr xs \<and> JStr ''json_content'' \<notin> set xs) \<or>
        (\<exists>s. document = JStr s \<and> \<not> sublist ''json_content'' s))"
    if doc: "map_of kvs' ''document'' = Some document" for kvs' document
  proof (cases document)
    case (JObj dkvs)
    show ?thesis
    proof (cases "map_of dkvs ''json_content''")
      case None
      with doc JObj show ?thesis
        by (simp add: extract_document_def)
    next
      case (Some content)
      with doc JObj show ?thesis
        by (cases "validate content") (simp_all add: extract_document_def)
    qed
  next
    case (JArr xs)
    with doc show ?thesis
      by (cases "JStr ''json_content'' \<in> set xs") (simp_all add: extract_document_def)
  next
    case (JStr s)
    with doc show ?thesis
      by (cases "sublist ''json_content'' s") (simp_all add: extract_document_def)
  qed (use doc in \<open>simp_all add: extract_document_def\<close>)
  have skipped: "(snd (extract_document validate p (JObj kvs')) = Return None) =
       ((\<exists>dkvs. document = JObj dkvs \<and>
           (map_of dkvs ''json_content'' = None \<or> map_of dkvs ''json_content'' = Some JNull \<or>
            (\<exists>content. map_of dkvs ''json_content'' = Some content \<and>
               validate content = None))) \<or>
        (\<exists>xs. document = JArr xs \<and> JStr ''json_content'' \<notin> set xs) \<or>
        (\<exists>s. document = JStr s \<and> \<not> sublist ''json_content'' s))"
    if doc: "map_of kvs' ''document'' = Some document" for kvs' document
  proof (cases document)
    case (JObj dkvs)
    show ?thesis
    proof (cases "map_of dkvs ''json_content''")
      case None
      with doc JObj show ?thesis
        by (simp add: extract_document_def)
    next
      case (Some content)
      with doc JObj show ?thesis
        by (cases "validate content") (simp_all add: extract_document_def)
    qed
  next
    case (JArr xs)
    with doc show ?thesis
      by (cases "JStr ''json_content'' \<in> set xs") (simp_all add: extract_document_def)
  next
    case (JStr s)
    with doc show ?thesis
      by (cases "sublist ''json_content'' s") (simp_all add: extract_document_def)
  qed (use doc in \<open>simp_all add: extract_document_def\<close>)
  from run never first only skipped show ?thesis
    by blast
qed

theorem missing_document_is_fatal_witness:
  "result_reply (second_is no_document 1) = Reply 200 (Some (JObj [(''detail'', JStr ''gone'')])) \<and>
   map_of [(''detail'', JStr ''gone'')] ''document'' = None \<and>
   pipeline two_workers accept (second_is no_document) (1, ''b.pdf'') =
     ([Request (PostConvert (docling_options two_workers) ''b.pdf'' ''PDF''),
       Request (GetResult (JStr ''t1''))],
      Raise (KeyError ''document'')) \<and>
   processed_data two_workers accept (second_is no_document) [1, 0]
     [with_path ''a.pdf'', with_path ''b.pdf''] =
     ([Log ErrorOccurred], Raise (KeyError ''document''))"
proof -
  let ?files = "[with_path ''a.pdf'', with_path ''b.pdf'']"
  let ?env = "second_is no_document"
  have client: "?env 1 = no_document"
    by (simp add: second_is_def)
  have loop: "snd (poll_loop (task_body ''success'') 0 (poll_replies (?env 1))) =
      Exit (task_body ''success'')"
    unfolding client by (simp add: no_document_def server_def ready_loop)
  have tr: "fst (poll_loop (task_body ''success'') 0 (poll_replies (?env 1))) = []"
    unfolding client by (simp add: no_document_def server_def ready_loop)
  have reply: "result_reply (?env 1) = Reply 200 (Some (JObj [(''detail'', JStr ''gone'')]))"
    unfolding client by (simp add: no_document_def server_def)
  have fut: "1 < length (futures_of ?files)" "futures_of ?files ! 1 = (1, ''b.pdf'')"
    by (simp_all add: two_files_futures)
  have sub: "file_bytes (?env 1) = Some ''PDF''"
    "submit_reply (?env 1) = Reply 200 (Some (task_body ''success''))"
    unfolding client by (simp_all add: no_document_def server_def)
  have codes: "(200::int) \<le> 200" "(200::int) < 300"
    by simp_all
  have tid: "getitem (task_body ''success'') ''task_id'' = Inr (JStr ''t1'')"
    by (simp add: task_body_def)
  have doc: "map_of [(''detail'', JStr ''gone'')] ''document'' = None"
    by simp
  have workers: "0 < max_concurrency two_workers"
    by (simp add: two_workers_def)
  have before: "\<forall>j'<1. \<exists>d. snd (pipeline two_workers accept ?env (futures_of ?files ! j')) = Return d"
    by (simp add: two_files_futures ready_pipeline)
  note inst = missing_document_is_fatal [where env = ?env and i = 1 and self = two_workers
      and validate = accept and order = "[1, 0]",
      OF fut sub codes loop tid reply codes doc]
  from inst have run: "pipeline two_workers accept ?env (1, ''b.pdf'') =
      (Request (PostConvert (docling_options two_workers) ''b.pdf'' ''PDF'') #
         fst (poll_loop (task_body ''success'') 0 (poll_replies (?env 1))) @
         [Request (GetResult (JStr ''t1''))],
       Raise (KeyError ''document''))"
    by (rule conjunct1)
  then have complete: "\<forall>j'<length (futures_of ?files). j' \<in> set [1, 0] \<and>
      snd (pipeline two_workers accept ?env (futures_of ?files ! j')) \<noteq> Stall"
    by (simp add: two_files_futures less_Suc_eq ready_pipeline)
  from inst workers complete before
  have "processed_data two_workers accept ?env [1, 0] ?files =
       ([Log ErrorOccurred], Raise (KeyError ''document''))"
    by blast
  with reply doc run tr show ?thesis
    by simp
qed

text \<open>
  C10 as written fails in its second half. The result below has a \<open>document\<close> that is an
  empty array, not an object; the membership test of line 130 finds no \<open>json_content\<close> in
  it, and the pipeline logs the missing document and returns \<open>None\<close>.
\<close>

theorem array_document_counterexample:
  "result_reply array_document = Reply 200 (Some (JObj [(''document'', JArr [])])) \<and>
   convert_document accept array_document ''b.pdf'' JNull =
     ([Request (PostConvert JNull ''b.pdf'' ''PDF''), Request (GetResult (JStr ''t1'')),
       Log NoJsonDocument],
      Return None)"
  by (simp add: array_document_def poll_loop.simps task_body_def
      convert_document_def server_def raise_for_status_def fetch_result_def check_result_def
      extract_document_def)

section \<open>Transport and protocol errors\<close>

text \<open>
  C5. Let pipeline \<open>j\<close> of a batch be the one of input \<open>i\<close>, let its file be readable, and
  let \<open>e\<close> be the first transport or protocol error of its run: no response or a non-2xx
  response to the submission or to the result fetch, no response to a poll, or a body the
  routine reads (of the submission, of a poll with a status code not above the retry
  threshold, of the result) that does not parse, is not an object or lacks an expected key.
  Then the pipeline raises \<open>e\<close>, and the batch call never returns slots, whatever the other
  pipelines do. When the pool has workers, every started pipeline completes, and the
  pipelines before it in the order of submission return, be it with a document or with
  \<open>None\<close>, the call raises \<open>e\<close>, with the line \<^verbatim>\<open>Error occurred\<close> in the log for the
  four listed exception classes. Conversely the call raises only what the executor's
  constructor or one of its pipelines raises: a pipeline that returns \<open>None\<close> does not
  abort it.
\<close>

theorem transport_and_protocol_errors_are_fatal:
  assumes "j < length (futures_of file_list)" and "futures_of file_list ! j = (i, p)"
    and "file_bytes (env i) = Some bytes" and "fault (env i) e"
  shows "snd (pipeline self validate env (i, p)) = Raise e \<and>
    (\<forall>out. snd (processed_data self validate env order file_list) \<noteq> Return out) \<and>
    (0 < max_concurrency self \<and>
     (\<forall>j'<length (futures_of file_list). j' \<in> set order \<and>
        snd (pipeline self validate env (futures_of file_list ! j')) \<noteq> Stall) \<and>
     (\<forall>j'<j. \<exists>d. snd (pipeline self validate env (futures_of file_list ! j')) = Return d) \<longrightarrow>
     processed_data self validate env order file_list =
       ((if listed e then [Log ErrorOccurred] else []), Raise e)) \<and>
    (\<forall>e'. snd (processed_data self validate env order file_list) = Raise e' \<longrightarrow>
       max_concurrency self \<le> 0 \<and> e' = ValueError \<or>
       (\<exists>j'<length (futures_of file_list).
          snd (pipeline self validate env (futures_of file_list ! j')) = Raise e'))"
proof -
  from fault_raises [OF assms(3,4)]
  have run: "snd (pipeline self validate env (i, p)) = Raise e"
    by (simp add: pipeline_def)
  then have raised: "snd (pipeline self validate env (futures_of file_list ! j)) = Raise e"
    by (simp add: assms(2))
  then have never: "\<forall>out. snd (processed_data self validate env order file_list) \<noteq> Return out"
    using batch_never_returns [OF assms(1), of self validate env order] by simp
  have first: "processed_data self validate env order file_list =
       ((if listed e then [Log ErrorOccurred] else []), Raise e)"
    if "0 < max_concurrency self \<and>
     (\<forall>j'<length (futures_of file_list). j' \<in> set order \<and>
        snd (pipeline self validate env (futures_of file_list ! j')) \<noteq> Stall) \<and>
     (\<forall>j'<j. \<exists>d. snd (pipeline self validate env (futures_of file_list ! j')) = Return d)"
    using batch_raises_first_log [OF _ assms(1) raised, of order] that by simp
  have origin: "\<forall>e'. snd (processed_data self validate env order file_list) = Raise e' \<longrightarrow>
       max_concurrency self \<le> 0 \<and> e' = ValueError \<or>
       (\<exists>j'<length (futures_of file_list).
          snd (pipeline self validate env (futures_of file_list ! j')) = Raise e')"
    using batch_raise_origin [of self validate env order file_list] by blast
  from run never first origin show ?thesis
    by blast
qed

theorem transport_and_protocol_errors_are_fatal_witness:
  "fault (second_is refused 1) (HTTPStatusError 503) \<and>
   snd (pipeline two_workers accept (second_is refused) (1, ''b.pdf'')) =
     Raise (HTTPStatusError 503) \<and>
   processed_data two_workers accept (second_is refused) [1, 0]
     [with_path ''a.pdf'', with_path ''b.pdf''] =
     ([Log ErrorOccurred], Raise (HTTPStatusError 503))"
proof -
  let ?files = "[with_path ''a.pdf'', with_path ''b.pdf'']"
  let ?env = "second_is refused"
  have client: "?env 1 = refused"
    by (simp add: second_is_def)
  have fault: "fault (?env 1) (HTTPStatusError 503)"
    unfolding client by (rule fault.at_submit) (simp add: refused_def)
  have bytes: "file_bytes (?env 1) = Some ''PDF''"
    unfolding client by (simp add: refused_def)
  have fut: "1 < length (futures_of ?files)" "futures_of ?files ! 1 = (1, ''b.pdf'')"
    by (simp_all add: two_files_futures)
  have workers: "0 < max_concurrency two_workers"
    by (simp add: two_workers_def)
  have before: "\<forall>j'<1. \<exists>d. snd (pipeline two_workers accept ?env (futures_of ?files ! j')) = Return d"
    by (simp add: two_files_futures ready_pipeline)
  note inst = transport_and_protocol_errors_are_fatal [where env = ?env and i = 1
      and self = two_workers and validate = accept and order = "[1, 0]",
      OF fut bytes fault]
  from inst have run: "snd (pipeline two_workers accept ?env (1, ''b.pdf'')) =
      Raise (HTTPStatusError 503)"
    by (rule conjunct1)
  then have complete: "\<forall>j'<length (futures_of ?files). j' \<in> set [1, 0] \<and>
      snd (pipeline two_workers accept ?env (futures_of ?files ! j')) \<noteq> Stall"
    by (simp add: two_files_futures less_Suc_eq ready_pipeline)
  from inst workers complete before
  have "processed_data two_workers accept ?env [1, 0] ?files =
       ([Log ErrorOccurred], Raise (HTTPStatusError 503))"
    by simp
  with fault run show ?thesis
    by simp
qed

section \<open>Leaving the pool\<close>

text \<open>
  C9. Let the pool have workers. If the batch call returns an error to the caller, then
  every future that the first loop submitted is completed, and its pipeline has run to its
  end, returning or raising; the error is the one that a pipeline of the batch raised. And
  as long as one submitted future is not completed, or its pipeline has not come to its
  end, the call does not return to the caller at all, also when the second loop has already
  met the error.
\<close>

theorem pool_drained_before_error:
  assumes "0 < max_concurrency self"
  shows "(snd (processed_data self validate env order file_list) = Raise e \<longrightarrow>
      (\<forall>j<length (futures_of file_list). j \<in> set order \<and>
         snd (pipeline self validate env (futures_of file_list ! j)) \<noteq> Stall) \<and>
      (\<exists>j<length (futures_of file_list).
         snd (pipeline self validate env (futures_of file_list ! j)) = Raise e)) \<and>
    ((\<exists>j<length (futures_of file_list). j \<notin> set order \<or>
         snd (pipeline self validate env (futures_of file_list ! j)) = Stall) \<longrightarrow>
      snd (processed_data self validate env order file_list) = Stall)"
proof (intro conjI impI)
  assume raised: "snd (processed_data self validate env order file_list) = Raise e"
  from batch_raise_drained [OF assms raised]
  show "\<forall>j<length (futures_of file_list). j \<in> set order \<and>
         snd (pipeline self validate env (futures_of file_list ! j)) \<noteq> Stall" .
  from batch_raise_origin [OF raised] assms
  show "\<exists>j<length (futures_of file_list).
         snd (pipeline self validate env (futures_of file_list ! j)) = Raise e"
    by simp
next
  assume "\<exists>j<length (futures_of file_list). j \<notin> set order \<or>
         snd (pipeline self validate env (futures_of file_list ! j)) = Stall"
  then have "\<not> (\<forall>j<length (futures_of file_list). j \<in> set order \<and>
           snd (pipeline self validate env (futures_of file_list ! j)) \<noteq> Stall)"
    by blast
  from processed_data_waiting [OF assms this]
  show "snd (processed_data self validate env order file_list) = Stall" .
qed

theorem pool_drained_before_error_witness:
  "0 < max_concurrency two_workers \<and>
   snd (pipeline two_workers accept (first_is refused) (0, ''a.pdf'')) =
     Raise (HTTPStatusError 503) \<and>
   snd (processed_data two_workers accept (first_is refused) [0]
     [with_path ''a.pdf'', with_path ''b.pdf'']) = Stall \<and>
   snd (processed_data two_workers accept (first_is refused) [0, 1]
     [with_path ''a.pdf'', with_path ''b.pdf'']) = Raise (HTTPStatusError 503)"
proof -
  let ?files = "[with_path ''a.pdf'', with_path ''b.pdf'']"
  let ?env = "first_is refused"
  have workers: "0 < max_concurrency two_workers"
    by (simp add: two_workers_def)
  have run: "snd (pipeline two_workers accept ?env (0, ''a.pdf'')) = Raise (HTTPStatusError 503)"
    by (simp add: pipeline_def first_is_def refused_def convert_document_def
        raise_for_status_def)
  have waiting: "\<exists>j<length (futures_of ?files). j \<notin> set [0] \<or>
      snd (pipeline two_workers accept ?env (futures_of ?files ! j)) = Stall"
    by (rule exI [of _ 1]) (simp add: two_files_futures)
  from pool_drained_before_error [OF workers, of accept ?env "[0]" ?files] waiting
  have stall: "snd (processed_data two_workers accept ?env [0] ?files) = Stall"
    by blast
  have other: "snd (pipeline two_workers accept ?env (Suc 0, ''b.pdf'')) =
      Return (Some \<lparr>doc = JObj [(''name'', JStr ''a'')], file_path = ''b.pdf''\<rparr>)"
    by (simp add: pipeline_def first_is_def ready_run)
  have complete: "\<forall>j<length (futures_of ?files). j \<in> set [0, 1] \<and>
      snd (pipeline two_workers accept ?env (futures_of ?files ! j)) \<noteq> Stall"
    by (simp add: two_files_futures less_Suc_eq run other)
  have "processed_data two_workers accept ?env [0, 1] ?files =
      ((if listed (HTTPStatusError 503) then [Log ErrorOccurred] else []),
       Raise (HTTPStatusError 503))"
  proof (rule batch_raises_first_log [OF workers _ _ complete])
    show "0 < length (futures_of ?files)"
      by (simp add: two_files_futures)
    show "snd (pipeline two_workers accept ?env (futures_of ?files ! 0)) =
        Raise (HTTPStatusError 503)"
      by (simp add: two_files_futures run)
    show "\<forall>j'<0. \<exists>d. snd (pipeline two_workers accept ?env (futures_of ?files ! j')) = Return d"
      by simp
  qed
  then have raised: "snd (processed_data two_workers accept ?env [0, 1] ?files) =
      Raise (HTTPStatusError 503)"
    by simp
  from pool_drained_before_error [OF workers, of accept ?env "[0, 1]" ?files
      "HTTPStatusError 503"] raised
  have "\<forall>j<length (futures_of ?files). j \<in> set [0, 1] \<and>
      snd (pipeline two_workers accept ?env (futures_of ?files ! j)) \<noteq> Stall"
    by blast
  with workers run stall raised show ?thesis
    by simp
qed

end
